theory Spec2Isabelle
  imports Complex_Main "HOL-Library.Sublist"
begin

section \<open>JavaScript strings\<close>

text \<open>
  A JavaScript string is a sequence of UTF-16 code units, the integers from 0 to 65535.
  The functions below are defined on all integers and the theorems hold for all lists of
  them. The literals of \<^verbatim>\<open>pricingCalculator.ts\<close> are ASCII apart from six Polish
  letters, written here by their code units.
\<close>

type_synonym jschar = int
type_synonym jsstring = "jschar list"

definition str :: "string \<Rightarrow> jsstring" where
  "str s = map of_char s"

definition isDigit :: "jschar \<Rightarrow> bool" where
  "isDigit c = (0x30 \<le> c \<and> c \<le> 0x39)"

text \<open>The class \<^verbatim>\<open>\w\<close> of a regular expression without the unicode flag.\<close>

definition isWordChar :: "jschar \<Rightarrow> bool" where
  "isWordChar c = ((0x41 \<le> c \<and> c \<le> 0x5A) \<or> (0x61 \<le> c \<and> c \<le> 0x7A) \<or> isDigit c \<or> c = 0x5F)"

text \<open>
  The class \<^verbatim>\<open>\s\<close>, which is also what \<^verbatim>\<open>trim\<close> strips: the WhiteSpace and
  LineTerminator code points of ECMAScript.
\<close>

definition isSpace :: "jschar \<Rightarrow> bool" where
  "isSpace c = (c \<in> {0x09, 0x0A, 0x0B, 0x0C, 0x0D, 0x20, 0xA0, 0x1680,
                       0x2028, 0x2029, 0x202F, 0x205F, 0x3000, 0xFEFF}
                \<or> (0x2000 \<le> c \<and> c \<le> 0x200A))"

definition trim :: "jsstring \<Rightarrow> jsstring" where
  "trim s = rev (dropWhile isSpace (rev (dropWhile isSpace s)))"

text \<open>
  \<^verbatim>\<open>toLowerCase\<close>, one code unit at a time. The table covers Basic Latin, Latin-1
  Supplement, Latin Extended-A (with the one mapping of that range that lengthens the
  string, U+0130), the Greek capitals U+0386 to U+03AB, the Cyrillic capitals U+0400 to
  U+042F, U+1E9E and the two letter-like symbols U+212A and U+212B. Not reproduced are
  the final-sigma rule (U+03A3 always becomes U+03C3 here) and the case pairs of the
  other blocks: such a code unit is left as it is. No theorem about all strings below
  depends on the table.
\<close>

definition lowerUnit :: "jschar \<Rightarrow> jsstring" where
  "lowerUnit c =
     (if c < 0x80 then (if 0x41 \<le> c \<and> c \<le> 0x5A then [c + 0x20] else [c])
      else if c < 0x100 then (if 0xC0 \<le> c \<and> c \<le> 0xDE \<and> c \<noteq> 0xD7 then [c + 0x20] else [c])
      else if c < 0x180 then
        (if c = 0x130 then [0x69, 0x307]
         else if c = 0x178 then [0xFF]
         else if (0x100 \<le> c \<and> c \<le> 0x12F) \<or> (0x132 \<le> c \<and> c \<le> 0x137)
                 \<or> (0x14A \<le> c \<and> c \<le> 0x177) then (if even c then [c + 1] else [c])
         else if (0x139 \<le> c \<and> c \<le> 0x148) \<or> (0x179 \<le> c \<and> c \<le> 0x17E)
              then (if odd c then [c + 1] else [c])
         else [c])
      else if c = 0x386 then [0x3AC]
      else if 0x388 \<le> c \<and> c \<le> 0x38A then [c + 0x25]
      else if c = 0x38C then [0x3CC]
      else if c = 0x38E \<or> c = 0x38F then [c + 0x3F]
      else if 0x391 \<le> c \<and> c \<le> 0x3AB \<and> c \<noteq> 0x3A2 then [c + 0x20]
      else if 0x400 \<le> c \<and> c \<le> 0x40F then [c + 0x50]
      else if 0x410 \<le> c \<and> c \<le> 0x42F then [c + 0x20]
      else if c = 0x1E9E then [0xDF]
      else if c = 0x212A then [0x6B]
      else if c = 0x212B then [0xE5]
      else [c])"

definition toLowerCase :: "jsstring \<Rightarrow> jsstring" where
  "toLowerCase s = concat (map lowerUnit s)"

text \<open>\<^verbatim>\<open>s.includes(kw)\<close>: \<open>kw\<close> occurs in \<open>s\<close> as a contiguous block.\<close>

definition includesStr :: "jsstring \<Rightarrow> jsstring \<Rightarrow> bool" where
  "includesStr s kw = sublist kw s"

definition endsWith :: "jsstring \<Rightarrow> jsstring \<Rightarrow> bool" where
  "endsWith s e = suffix e s"

text \<open>\<^verbatim>\<open>row.join(' ')\<close>.\<close>

fun join :: "jsstring list \<Rightarrow> jsstring" where
  "join [] = []"
| "join [c] = c"
| "join (c # d # cs) = c @ [0x20] @ join (d # cs)"

text \<open>
  \<^verbatim>\<open>xs[i]\<close> on an array: \<^verbatim>\<open>undefined\<close> (\<open>None\<close>) outside the array. The
  idiom \<^verbatim>\<open>xs[i] || ""\<close> turns both \<^verbatim>\<open>undefined\<close> and the empty string into the
  empty string.
\<close>

definition elemAt :: "'a list \<Rightarrow> nat \<Rightarrow> 'a option" where
  "elemAt xs i = (if i < length xs then Some (xs ! i) else None)"

definition orEmpty :: "jsstring option \<Rightarrow> jsstring" where
  "orEmpty c = (case c of None \<Rightarrow> [] | Some s \<Rightarrow> s)"

text \<open>
  The decimal digits of a non-negative integer, as \<^verbatim>\<open>(n).toString()\<close> prints it.
\<close>

function decDigits :: "int \<Rightarrow> jsstring" where
  "decDigits n = (if n < 10 then [0x30 + n]
                  else decDigits (n div 10) @ [0x30 + n mod 10])"
  by pat_completeness auto
termination
  by (relation "measure nat") auto

declare decDigits.simps [simp del]

text \<open>The value of a string of decimal digits.\<close>

definition digitVal :: "jschar \<Rightarrow> int" where
  "digitVal c = c - 0x30"

definition digitsVal :: "jsstring \<Rightarrow> int" where
  "digitsVal ds = foldl (\<lambda>n c. 10 * n + digitVal c) 0 ds"

section \<open>JavaScript numbers\<close>

text \<open>
  A Number is an IEEE 754 binary64 value: a finite value (a rational of the form
  \<open>m * 2 ^ e\<close> with a 53-bit \<open>m\<close>), an infinity or NaN. The sign of zero is not
  modelled: the program only formats values that it has tested to be positive, and its
  comparisons do not tell the two zeros apart.
\<close>

datatype number = Num rat | PosInf | NegInf | NaN

text \<open>The number of binary digits of a positive integer.\<close>

function bitlen :: "int \<Rightarrow> int" where
  "bitlen n = (if n \<le> 0 then 0 else 1 + bitlen (n div 2))"
  by pat_completeness auto
termination
  by (relation "measure nat") auto

declare bitlen.simps [simp del]

text \<open>The exponent \<open>e\<close> with \<open>2 ^ e \<le> x < 2 ^ (e + 1)\<close>, for a positive rational.\<close>

definition ilog2 :: "rat \<Rightarrow> int" where
  "ilog2 x = (let (p, q) = quotient_of x;
                  e = bitlen p - bitlen q
              in if 2 powi e \<le> x then e else e - 1)"

definition roundHalfEven :: "rat \<Rightarrow> int" where
  "roundHalfEven m = (let f = \<lfloor>m\<rfloor>; d = m - of_int f
                      in if d < 1/2 then f else if 1/2 < d then f + 1
                         else if even f then f else f + 1)"

text \<open>
  Rounding of a real result to binary64, to nearest with ties to even: 52 fraction bits
  below the leading bit, exponents from \<open>-1022\<close> (subnormals share the spacing
  \<open>2 ^ -1074\<close>), overflow to an infinity when the rounded value reaches \<open>2 ^ 1024\<close>
  (exponent above 1023, or exponent 1023 and a significand rounded up to \<open>2 ^ 53\<close>).
\<close>

definition round64 :: "rat \<Rightarrow> number" where
  "round64 x =
     (if x = 0 then Num 0
      else let a = \<bar>x\<bar>;
               e = max (ilog2 a) (- 1022);
               ulp = 2 powi (e - 52);
               m = roundHalfEven (a / ulp)
           in if 1023 < e \<or> (e = 1023 \<and> m = 2 ^ 53) then (if 0 < x then PosInf else NegInf)
              else Num (if 0 < x then of_int m * ulp else - (of_int m * ulp)))"

fun jadd :: "number \<Rightarrow> number \<Rightarrow> number" where
  "jadd (Num a) (Num b) = round64 (a + b)"
| "jadd NaN _ = NaN"
| "jadd _ NaN = NaN"
| "jadd PosInf NegInf = NaN"
| "jadd NegInf PosInf = NaN"
| "jadd PosInf _ = PosInf"
| "jadd _ PosInf = PosInf"
| "jadd NegInf _ = NegInf"
| "jadd _ NegInf = NegInf"

fun jsign :: "number \<Rightarrow> int" where
  "jsign (Num a) = (if 0 < a then 1 else if a < 0 then - 1 else 0)"
| "jsign PosInf = 1"
| "jsign NegInf = - 1"
| "jsign NaN = 0"

definition jmul :: "number \<Rightarrow> number \<Rightarrow> number" where
  "jmul x y =
     (case (x, y) of
        (Num a, Num b) \<Rightarrow> round64 (a * b)
      | _ \<Rightarrow> (if x = NaN \<or> y = NaN \<or> jsign x * jsign y = 0 then NaN
              else if 0 < jsign x * jsign y then PosInf else NegInf))"

fun jdiv :: "number \<Rightarrow> number \<Rightarrow> number" where
  "jdiv (Num a) (Num b) =
     (if b = 0 then (if a = 0 then NaN else if 0 < a then PosInf else NegInf)
      else round64 (a / b))"
| "jdiv NaN _ = NaN"
| "jdiv _ NaN = NaN"
| "jdiv (Num a) _ = Num 0"
| "jdiv a (Num b) = (let s = jsign a * (if b < 0 then - 1 else 1)
                     in if 0 < s then PosInf else NegInf)"
| "jdiv _ _ = NaN"

text \<open>\<^verbatim>\<open>a < b\<close>; a comparison with NaN is false.\<close>

fun jlt :: "number \<Rightarrow> number \<Rightarrow> bool" where
  "jlt NaN _ = False"
| "jlt _ NaN = False"
| "jlt (Num a) (Num b) = (a < b)"
| "jlt NegInf b = (b \<noteq> NegInf)"
| "jlt a PosInf = (a \<noteq> PosInf)"
| "jlt _ _ = False"

definition jgt :: "number \<Rightarrow> number \<Rightarrow> bool" where
  "jgt a b = jlt b a"

fun jle :: "number \<Rightarrow> number \<Rightarrow> bool" where
  "jle NaN _ = False"
| "jle _ NaN = False"
| "jle a b = (\<not> jlt b a)"

definition jge :: "number \<Rightarrow> number \<Rightarrow> bool" where
  "jge a b = jle b a"

text \<open>\<^verbatim>\<open>Math.ceil\<close>: the ceiling of a binary64 value is a binary64 value.\<close>

fun ceil :: "number \<Rightarrow> number" where
  "ceil (Num a) = Num (of_int \<lceil>a\<rceil>)"
| "ceil x = x"

text \<open>\<^verbatim>\<open>parseInt(ds, 10)\<close> on a non-empty string of decimal digits.\<close>

definition parseInt :: "jsstring \<Rightarrow> number" where
  "parseInt ds = round64 (of_int (digitsVal ds))"

subsection \<open>Numbers and strings\<close>

text \<open>
  \<^verbatim>\<open>Number.prototype.toString\<close> for a finite value of at least \<open>10 ^ 21\<close>, the
  only range in which \<^verbatim>\<open>toFixed\<close> calls it: the shortest decimal \<open>s * 10 ^ (n - k)\<close>
  with \<open>k\<close> digits that rounds back to the value (the closest one, where several do),
  printed in exponent notation.
\<close>

definition candidates :: "rat \<Rightarrow> int \<Rightarrow> int \<Rightarrow> (int \<times> int) list" where
  "candidates a d k =
     concat (map (\<lambda>n. let q = \<lfloor>a / 10 ^ nat (n - k)\<rfloor>
                      in filter (\<lambda>(s, n). 10 ^ nat (k - 1) \<le> s \<and> s < 10 ^ nat k
                                          \<and> round64 (of_int s * 10 ^ nat (n - k)) = Num a)
                                [(q, n), (q + 1, n)])
                 [d, d + 1])"

definition closest :: "rat \<Rightarrow> int \<Rightarrow> (int \<times> int) \<Rightarrow> (int \<times> int) list \<Rightarrow> int \<times> int" where
  "closest a k c cs =
     foldl (\<lambda>b c. if \<bar>of_int (fst c) * 10 ^ nat (snd c - k) - a\<bar>
                        < \<bar>of_int (fst b) * 10 ^ nat (snd b - k) - a\<bar>
                   then c else b) c cs"

fun shortestFrom :: "rat \<Rightarrow> int \<Rightarrow> int list \<Rightarrow> int \<times> int \<times> int" where
  "shortestFrom a d [] = (\<lfloor>a / 10 ^ nat (d - 17)\<rfloor>, d, 17)"
| "shortestFrom a d (k # ks) =
     (case candidates a d k of
        [] \<Rightarrow> shortestFrom a d ks
      | c # cs \<Rightarrow> (let (s, n) = closest a k c cs in (s, n, k)))"

definition toStringLarge :: "rat \<Rightarrow> jsstring" where
  "toStringLarge a =
     (let (s, n, k) = shortestFrom a (int (length (decDigits \<lfloor>a\<rfloor>))) [1 .. 17];
          ds = decDigits s
      in (if k = 1 then ds else take 1 ds @ str ''.'' @ drop 1 ds) @ str ''e+'' @ decDigits (n - 1))"

text \<open>
  \<^verbatim>\<open>x.toFixed(2)\<close>: below \<open>10 ^ 21\<close> the integer \<open>n\<close> with \<open>n / 100\<close> closest to
  \<open>x\<close> (the larger of two), printed with at least one digit before the point.
\<close>

definition fixedAbs :: "rat \<Rightarrow> jsstring" where
  "fixedAbs a =
     (if 10 ^ 21 \<le> a then toStringLarge a
      else let m = decDigits \<lfloor>a * 100 + 1/2\<rfloor>;
               p = replicate (3 - length m) 0x30 @ m
           in take (length p - 2) p @ str ''.'' @ drop (length p - 2) p)"

fun toFixed2 :: "number \<Rightarrow> jsstring" where
  "toFixed2 (Num x) = (if x < 0 then str ''-'' @ fixedAbs (- x) else fixedAbs x)"
| "toFixed2 PosInf = str ''Infinity''"
| "toFixed2 NegInf = str ''-Infinity''"
| "toFixed2 NaN = str ''NaN''"

text \<open>
  \<^verbatim>\<open>parseFloat\<close>: leading white space, a sign, then \<^verbatim>\<open>Infinity\<close> or the longest
  decimal literal (digits, a fraction, an exponent that has digits); NaN when there is no
  digit. The value is rounded to binary64.
\<close>

definition exponentPart :: "jsstring \<Rightarrow> int" where
  "exponentPart r =
     (case r of
        [] \<Rightarrow> 0
      | c # r1 \<Rightarrow>
          if c = 0x65 \<or> c = 0x45 then
            (let neg = (r1 \<noteq> [] \<and> hd r1 = 0x2D);
                 r2 = (if r1 \<noteq> [] \<and> (hd r1 = 0x2D \<or> hd r1 = 0x2B) then tl r1 else r1);
                 ds = takeWhile isDigit r2
             in if ds = [] then 0
                else if neg then - digitsVal ds else digitsVal ds)
          else 0)"

definition parseFloat :: "jsstring \<Rightarrow> number" where
  "parseFloat s =
     (let t = dropWhile isSpace s;
          neg = (t \<noteq> [] \<and> hd t = 0x2D);
          t1 = (if t \<noteq> [] \<and> (hd t = 0x2D \<or> hd t = 0x2B) then tl t else t)
      in if prefix (str ''Infinity'') t1 then (if neg then NegInf else PosInf)
         else let ip = takeWhile isDigit t1;
                  r1 = dropWhile isDigit t1;
                  hasPoint = (r1 \<noteq> [] \<and> hd r1 = 0x2E);
                  fp = (if hasPoint then takeWhile isDigit (tl r1) else []);
                  r2 = (if hasPoint then dropWhile isDigit (tl r1) else r1)
              in if ip = [] \<and> fp = [] then NaN
                 else let v = (of_int (digitsVal ip) + of_int (digitsVal fp) / 10 ^ length fp)
                                * 10 powi exponentPart r2
                      in round64 (if neg then - v else v))"

section \<open>Regular expressions\<close>

text \<open>
  The fragment of ECMAScript regular expressions that the program uses, with the
  backtracking semantics of the language: \<open>run r t s\<close> lists, in the order in which the
  matcher tries them, the states that \<open>r\<close> can reach from the state \<open>s\<close> (an end index
  and the captures). The first element is the match that the matcher returns.
  \<open>LitI\<close> is a character of a pattern with the \<^verbatim>\<open>i\<close> flag; for an ASCII pattern
  character, canonicalisation without the \<^verbatim>\<open>u\<close> flag never maps a code unit from
  128 on to an ASCII one, so only the two ASCII cases match.
\<close>

datatype cls = Digit | Space

datatype regex =
    Eps
  | Lit jschar
  | LitI jschar
  | Rep nat cls
  | Bnd
  | Seq regex regex
  | Opt regex
  | Grp nat regex

type_synonym mstate = "nat \<times> (nat \<Rightarrow> jsstring option)"

fun inClass :: "cls \<Rightarrow> jschar \<Rightarrow> bool" where
  "inClass Digit c = isDigit c"
| "inClass Space c = isSpace c"

definition asciiUpper :: "jschar \<Rightarrow> jschar" where
  "asciiUpper c = (if 0x61 \<le> c \<and> c \<le> 0x7A then c - 0x20 else c)"

definition wordAt :: "jsstring \<Rightarrow> nat \<Rightarrow> bool" where
  "wordAt t i = (i < length t \<and> isWordChar (t ! i))"

fun run :: "regex \<Rightarrow> jsstring \<Rightarrow> mstate \<Rightarrow> mstate list" where
  "run Eps t s = [s]"
| "run (Lit p) t (i, c) = (if i < length t \<and> t ! i = p then [(i + 1, c)] else [])"
| "run (LitI p) t (i, c) =
     (if i < length t \<and> asciiUpper (t ! i) = asciiUpper p then [(i + 1, c)] else [])"
| "run (Rep m k) t (i, c) =
     map (\<lambda>n. (i + n, c)) (rev [m ..< Suc (length (takeWhile (inClass k) (drop i t)))])"
| "run Bnd t (i, c) =
     (if (0 < i \<and> wordAt t (i - 1)) \<noteq> wordAt t i then [(i, c)] else [])"
| "run (Seq a b) t s = concat (map (run b t) (run a t s))"
| "run (Opt a) t s = filter (\<lambda>s'. fst s' \<noteq> fst s) (run a t s) @ [s]"
| "run (Grp g a) t (i, c) =
     map (\<lambda>(j, c'). (j, c'(g := Some (take (j - i) (drop i t))))) (run a t (i, c))"

text \<open>
  One call of \<^verbatim>\<open>exec\<close> on a global expression: the first start index from
  \<open>lastIndex\<close> on at which the pattern matches, with the state of that match.
\<close>

function regexExec :: "regex \<Rightarrow> jsstring \<Rightarrow> nat \<Rightarrow> (nat \<times> mstate) option" where
  "regexExec r t i =
     (if length t < i then None
      else case run r t (i, \<lambda>_. None) of
             [] \<Rightarrow> regexExec r t (i + 1)
           | s # _ \<Rightarrow> Some (i, s))"
  by pat_completeness auto
termination
  by (relation "measure (\<lambda>(r, t, i). length t + 1 - i)") auto

declare regexExec.simps [simp del]

text \<open>\<^verbatim>\<open>regex.test(t)\<close> for an expression without the global flag.\<close>

definition regexTest :: "regex \<Rightarrow> jsstring \<Rightarrow> bool" where
  "regexTest r t = (regexExec r t 0 \<noteq> None)"

lemma run_bounds:
  "s' \<in> set (run r t s) \<Longrightarrow> fst s \<le> length t \<Longrightarrow> fst s \<le> fst s' \<and> fst s' \<le> length t"
proof (induction r arbitrary: s s')
  case (Rep m k)
  obtain i c where s: "s = (i, c)" by (cases s)
  have "length (takeWhile (inClass k) (drop i t)) \<le> length t - i"
    using length_takeWhile_le [of "inClass k" "drop i t"] by simp
  with Rep s show ?case by auto
next
  case (Seq a b)
  then obtain s1 where s1: "s1 \<in> set (run a t s)" "s' \<in> set (run b t s1)" by auto
  from Seq.IH(1) [OF s1(1) Seq.prems(2)] have b1: "fst s \<le> fst s1" "fst s1 \<le> length t" by auto
  from Seq.IH(2) [OF s1(2) b1(2)] b1 show ?case by auto
next
  case (Opt a)
  show ?case
  proof (cases "s' = s")
    case True
    with Opt.prems show ?thesis by simp
  next
    case False
    with Opt.prems have "s' \<in> set (run a t s)" by auto
    from Opt.IH [OF this Opt.prems(2)] show ?thesis .
  qed
next
  case (Grp g a)
  obtain i c where s: "s = (i, c)" by (cases s)
  with Grp.prems obtain j c' where j: "(j, c') \<in> set (run a t (i, c))" "fst s' = j" by auto
  from Grp.IH [OF j(1)] Grp.prems(2) s j(2) show ?case by auto
qed (auto split: if_splits prod.splits)

lemma regexExec_bounds:
  "regexExec r t i = Some (st, s) \<Longrightarrow> i \<le> st \<and> st \<le> fst s \<and> fst s \<le> length t"
proof (induction r t i rule: regexExec.induct)
  case (1 r t i)
  show ?case
  proof (cases "run r t (i, \<lambda>_. None)")
    case Nil
    with "1.prems" have le: "\<not> length t < i" and ex: "regexExec r t (i + 1) = Some (st, s)"
      by (auto simp: regexExec.simps [of r t i] split: if_splits)
    from "1.IH" [OF le Nil ex] show ?thesis by simp
  next
    case (Cons s0 rest)
    with "1.prems" have le: "\<not> length t < i" and eq: "st = i" "s = s0"
      by (auto simp: regexExec.simps [of r t i] split: if_splits)
    have "s0 \<in> set (run r t (i, \<lambda>_. None))" using Cons by simp
    from run_bounds [OF this] le eq show ?thesis by simp
  qed
qed

text \<open>
  \<^verbatim>\<open>[...t.matchAll(r)]\<close>: the successive matches from \<open>lastIndex\<close> on. After a match
  the search resumes at its end, one further when the match was empty.
\<close>

function matchAll :: "regex \<Rightarrow> jsstring \<Rightarrow> nat \<Rightarrow> mstate list" where
  "matchAll r t i =
     (case regexExec r t i of
        None \<Rightarrow> []
      | Some (st, s) \<Rightarrow> s # matchAll r t (if fst s = st then fst s + 1 else fst s))"
  by pat_completeness auto
termination
proof (relation "measure (\<lambda>(r, t, i). length t + 1 - i)", goal_cases)
  case 1
  show ?case by simp
next
  case (2 r t i x2 st s)
  from regexExec_bounds [of r t i st s] 2 show ?case by auto
qed

declare matchAll.simps [simp del]

section \<open>The data of \<^verbatim>\<open>pricingCalculator.ts\<close>\<close>

text \<open>
  \<^verbatim>\<open>ExtractedTable\<close>, \<^verbatim>\<open>PricingTier\<close>, \<^verbatim>\<open>ProcessingOptions\<close> and
  \<^verbatim>\<open>CalculatedTotals\<close>. An optional field is an \<open>option\<close>; the three optional
  flags are only ever tested for truth, so an absent flag is \<open>False\<close>.
\<close>

record table =
  title :: "jsstring option"
  headers :: "jsstring list"
  rows :: "jsstring list list"

record PricingTier =
  tmin :: number
  tmax :: number
  price :: number

record ProcessingOptions =
  removeUoRows :: bool
  removeZeroPriceRows :: bool
  preserveLp :: bool
  wePrice :: "number option"
  w2tPrice :: "number option"
  w4tPrice :: "number option"
  kuPrice :: "number option"
  csMultiplier :: "number option"
  customCsPrices :: "number list option"

record CalculatedTotals =
  totalNetto :: number
  totalBrutto :: number

record ProcessingResult =
  processedTables :: "table list"
  totals :: CalculatedTotals

text \<open>
  The program has no \<^verbatim>\<open>throw\<close>. What could raise is a property read on
  \<^verbatim>\<open>undefined\<close>, after an array read outside the array; such a read is a branch
  of the model that returns \<open>TypeError\<close>.
\<close>

datatype error = TypeError

definition DEFAULT_PRICING_SCHEDULE :: "PricingTier list" where
  "DEFAULT_PRICING_SCHEDULE =
     [\<lparr>tmin = Num 0, tmax = Num 100, price = Num 730\<rparr>,
      \<lparr>tmin = Num 101, tmax = Num 150, price = Num 792\<rparr>,
      \<lparr>tmin = Num 151, tmax = Num 200, price = Num 848\<rparr>,
      \<lparr>tmin = Num 201, tmax = Num 250, price = Num 912\<rparr>,
      \<lparr>tmin = Num 251, tmax = Num 300, price = Num 1164\<rparr>,
      \<lparr>tmin = Num 301, tmax = Num 350, price = Num 1296\<rparr>,
      \<lparr>tmin = Num 351, tmax = Num 400, price = Num 1462\<rparr>,
      \<lparr>tmin = Num 401, tmax = Num 450, price = Num 1628\<rparr>,
      \<lparr>tmin = Num 451, tmax = Num 500, price = Num 1650\<rparr>,
      \<lparr>tmin = Num 501, tmax = Num 550, price = Num 1766\<rparr>,
      \<lparr>tmin = Num 551, tmax = Num 600, price = Num 1880\<rparr>,
      \<lparr>tmin = Num 601, tmax = Num 650, price = Num 1996\<rparr>,
      \<lparr>tmin = Num 651, tmax = Num 700, price = Num 2112\<rparr>]"

definition VAT_RATE :: number where
  "VAT_RATE = round64 (8 / 100)"

section \<open>Header detection\<close>

definition strongHeaderKeywords :: "jsstring list" where
  "strongHeaderKeywords =
     [str ''lp.'', str ''lp'', str ''nr na mapie'', str ''nazwa gatunku'',
      str ''obw'' @ [0xF3] @ str ''d'', str ''obwod'', str ''zabiegi'',
      str ''piel'' @ [0x119] @ str ''gnacyjne'', str ''warto'' @ [0x15B, 0x107],
      str ''netto'', str ''brutto'', str ''kod'']"

text \<open>\<^verbatim>\<open>text.toLowerCase().replace(/[\s\r\n\t.,;:]/g, '')\<close>.\<close>

definition normalizeText :: "jsstring \<Rightarrow> jsstring" where
  "normalizeText text =
     filter (\<lambda>c. \<not> (isSpace c \<or> c = 0x2E \<or> c = 0x2C \<or> c = 0x3B \<or> c = 0x3A)) (toLowerCase text)"

text \<open>
  One turn of the loop of strategy B, on the pair \<^verbatim>\<open>(referenceHeaders[i], row[i])\<close>;
  the state is \<^verbatim>\<open>(matchScore, comparisons)\<close>.
\<close>

definition compareStep :: "number \<times> int \<Rightarrow> jsstring \<times> jsstring \<Rightarrow> number \<times> int" where
  "compareStep st hr =
     (let (matchScore, comparisons) = st;
          h = normalizeText (fst hr);
          r = normalizeText (snd hr)
      in if h = [] \<and> r = [] then (matchScore, comparisons)
         else if h = r then (jadd matchScore (Num 1), comparisons + 1)
         else if (3 < length h \<or> 3 < length r) \<and> (includesStr h r \<or> includesStr r h)
              then (jadd matchScore (round64 (8 / 10)), comparisons + 1)
         else (matchScore, comparisons + 1))"

text \<open>
  The loop runs over the indices below \<^verbatim>\<open>Math.min(referenceHeaders.length, row.length)\<close>,
  that is over \<open>zip referenceHeaders row\<close>.
\<close>

definition isHeaderRow :: "jsstring list \<Rightarrow> jsstring list \<Rightarrow> bool" where
  "isHeaderRow row referenceHeaders =
     (let rowText = toLowerCase (join row);
          keywordHits = length (filter (includesStr rowText) strongHeaderKeywords)
      in if 3 \<le> keywordHits then True
         else if 2 \<le> keywordHits \<and> (includesStr rowText (str ''lp'') \<or> includesStr rowText (str ''nr''))
              then True
         else if 0 < length referenceHeaders then
           (let (matchScore, comparisons) = foldl compareStep (Num 0, 0) (zip referenceHeaders row)
            in 0 < comparisons \<and> jgt (jdiv matchScore (Num (of_int comparisons))) (Num (1 / 2)))
         else False)"

section \<open>Table merging\<close>

text \<open>
  \<^verbatim>\<open>JSON.stringify\<close> is injective on arrays of strings, so the comparison of the two
  serialisations is the equality of the header lists.
\<close>

definition compatible :: "table \<Rightarrow> table \<Rightarrow> bool" where
  "compatible currentTable nextTable =
     (let colDiff = \<bar>int (length (headers currentTable)) - int (length (headers nextTable))\<bar>;
          sameHeaders = (headers currentTable = headers nextTable);
          headersLookSimilar = isHeaderRow (headers nextTable) (headers currentTable)
      in sameHeaders \<or> headersLookSimilar \<or> (colDiff \<le> 1 \<and> 3 < length (headers nextTable)))"

definition mergeStep :: "table list \<times> table \<Rightarrow> table \<Rightarrow> table list \<times> table" where
  "mergeStep st nextTable =
     (let (merged, currentTable) = st
      in if compatible currentTable nextTable
         then (merged, currentTable\<lparr>rows := rows currentTable @ rows nextTable\<rparr>)
         else (merged @ [currentTable], nextTable))"

definition mergeCompatibleTables :: "table list \<Rightarrow> error + table list" where
  "mergeCompatibleTables tables =
     (if length tables = 0 then Inr []
      else case elemAt tables 0 of
             None \<Rightarrow> Inl TypeError
           | Some t0 \<Rightarrow>
               (let (merged, currentTable) = foldl mergeStep ([], t0) (drop 1 tables)
                in Inr (merged @ [currentTable])))"

section \<open>Column classification\<close>

text \<open>
  \<^verbatim>\<open>columnScores\<close> is a \<^verbatim>\<open>Map\<close>: its entries are iterated in the order in which
  the keys were first set, so it is an association list in insertion order. The scores
  are small integers, on which binary64 arithmetic is exact.
\<close>

record score =
  circ :: int
  treat :: int

type_synonym columnScores = "(nat \<times> score) list"

definition getScore :: "nat \<Rightarrow> columnScores \<Rightarrow> columnScores" where
  "getScore idx m = (if idx \<in> set (map fst m) then m else m @ [(idx, \<lparr>circ = 0, treat = 0\<rparr>)])"

definition addCirc :: "nat \<Rightarrow> int \<Rightarrow> columnScores \<Rightarrow> columnScores" where
  "addCirc idx n m = map (\<lambda>(k, sc). if k = idx then (k, sc\<lparr>circ := circ sc + n\<rparr>) else (k, sc)) m"

definition addTreat :: "nat \<Rightarrow> int \<Rightarrow> columnScores \<Rightarrow> columnScores" where
  "addTreat idx n m = map (\<lambda>(k, sc). if k = idx then (k, sc\<lparr>treat := treat sc + n\<rparr>) else (k, sc)) m"

definition enumerate :: "'a list \<Rightarrow> (nat \<times> 'a) list" where
  "enumerate xs = zip [0 ..< length xs] xs"

definition circHeaderKeywords :: "jsstring list" where
  "circHeaderKeywords =
     [str ''obw'', str ''cm'', str ''wymiar'', str ''srednica'', [0x15B] @ str ''rednica'']"

definition treatHeaderKeywords :: "jsstring list" where
  "treatHeaderKeywords =
     [str ''zabieg'', str ''czynno'' @ [0x15B], str ''czynnos'', str ''opis'', str ''kod'']"

text \<open>Strategy 1: the body of \<^verbatim>\<open>table.headers.forEach\<close>.\<close>

definition scoreHeader :: "columnScores \<Rightarrow> nat \<times> jsstring \<Rightarrow> columnScores" where
  "scoreHeader m ih =
     (let (idx, header) = ih;
          h = trim (toLowerCase header);
          m1 = getScore idx m;
          m2 = (if list_ex (includesStr h) circHeaderKeywords then addCirc idx 50 m1 else m1)
      in if list_ex (includesStr h) treatHeaderKeywords then addTreat idx 50 m2 else m2)"

definition csKeywords :: "jsstring list" where
  "csKeywords = [str ''cs'', str ''ci'' @ [0x119] @ str ''c'', str ''ciec'', str ''cr'', str ''cp'']"

text \<open>The expression \<^verbatim>\<open>/\bwe\b/\<close>.\<close>

definition weWord :: regex where
  "weWord = Seq Bnd (Seq (Lit 0x77) (Seq (Lit 0x65) Bnd))"

text \<open>
  Strategy 2: the body of \<^verbatim>\<open>row.forEach\<close>. The match of \<^verbatim>\<open>/^(\d+)/\<close> is the
  run of digits at the start of the trimmed cell, if it is not empty.
\<close>

definition scoreCell :: "columnScores \<Rightarrow> nat \<times> jsstring \<Rightarrow> columnScores" where
  "scoreCell m ic =
     (let (idx, cell) = ic
      in if cell = [] then m
         else
           (let val = trim cell;
                valLower = toLowerCase val;
                m1 = getScore idx m;
                m2 = (if list_ex (includesStr valLower) csKeywords then addTreat idx 5 m1
                      else if includesStr valLower (str ''w2t'') \<or> includesStr valLower (str ''w4t'')
                              \<or> regexTest weWord valLower then addTreat idx 5 m1
                      else if includesStr valLower (str ''ku'') then addTreat idx 5 m1
                      else if valLower \<in> set [str ''uo'', str ''u'', str ''uo.'', str ''u.'']
                           then addTreat idx 2 m1
                      else m1);
                numberMatch = takeWhile isDigit val
            in if numberMatch \<noteq> [] then
                 (let num = parseInt numberMatch
                  in if num \<noteq> NaN \<and> jge num (Num 0) \<and> jle num (Num 900)
                     then addCirc idx 1 m2 else m2)
               else m2))"

definition scoreRow :: "columnScores \<Rightarrow> jsstring list \<Rightarrow> columnScores" where
  "scoreRow m row = foldl scoreCell m (enumerate row)"

definition scoreTable :: "table \<Rightarrow> columnScores" where
  "scoreTable tbl =
     (let m = (if 0 < length (headers tbl) then foldl scoreHeader [] (enumerate (headers tbl)) else [])
      in foldl scoreRow m (rows tbl))"

text \<open>
  The selection loop over \<^verbatim>\<open>columnScores.entries()\<close>. An index that is \<open>-1\<close> in the
  source is \<open>None\<close>.
\<close>

record selection =
  bestCircIdx :: "nat option"
  maxCircScore :: int
  bestTreatIdx :: "nat option"
  maxTreatScore :: int

definition selectStep :: "selection \<Rightarrow> nat \<times> score \<Rightarrow> selection" where
  "selectStep sel e =
     (let (idx, sc) = e;
          sel1 = (if maxCircScore sel < circ sc
                  then sel\<lparr>maxCircScore := circ sc, bestCircIdx := Some idx\<rparr> else sel)
      in if maxTreatScore sel1 < treat sc
         then sel1\<lparr>maxTreatScore := treat sc, bestTreatIdx := Some idx\<rparr> else sel1)"

definition selectColumns :: "columnScores \<Rightarrow> selection" where
  "selectColumns m =
     foldl selectStep \<lparr>bestCircIdx = None, maxCircScore = 0, bestTreatIdx = None, maxTreatScore = 0\<rparr> m"

text \<open>The same column selected for both roles keeps the role with the higher score.\<close>

definition resolveConflict :: "selection \<Rightarrow> selection" where
  "resolveConflict sel =
     (if bestCircIdx sel \<noteq> None \<and> bestCircIdx sel = bestTreatIdx sel then
        (if maxCircScore sel \<le> maxTreatScore sel then sel\<lparr>bestCircIdx := None\<rparr>
         else sel\<lparr>bestTreatIdx := None\<rparr>)
      else sel)"

definition classify :: "table \<Rightarrow> selection" where
  "classify tbl = resolveConflict (selectColumns (scoreTable tbl))"

section \<open>Row filtering\<close>

text \<open>\<^verbatim>\<open>s.replace(/\.$/, '')\<close>.\<close>

definition stripTrailingDot :: "jsstring \<Rightarrow> jsstring" where
  "stripTrailingDot s = (if s \<noteq> [] \<and> last s = 0x2E then butlast s else s)"

definition keepNonUo :: "nat \<Rightarrow> jsstring list \<Rightarrow> bool" where
  "keepNonUo ti row =
     (let treatCell = orEmpty (elemAt row ti);
          normalized = stripTrailingDot (toLowerCase (trim treatCell))
      in normalized \<notin> set [str ''uo'', str ''u''])"

definition rowsToProcess :: "ProcessingOptions \<Rightarrow> selection \<Rightarrow> table \<Rightarrow> jsstring list list" where
  "rowsToProcess options sel tbl =
     (let rs = filter (\<lambda>row. \<not> isHeaderRow row (headers tbl)) (rows tbl)
      in case bestTreatIdx sel of
           Some ti \<Rightarrow> if removeUoRows options then filter (keepNonUo ti) rs else rs
         | None \<Rightarrow> rs)"

section \<open>Header renaming\<close>

definition circLabel :: jsstring where
  "circLabel = str ''Obw'' @ [0xF3] @ str ''d pnia'' @ [0x0A] @ str ''mierz.'' @ [0x0A]
               @ str ''na wys. 130 cm'' @ [0x0A] @ str ''[cm]''"

definition treatLabel :: jsstring where
  "treatLabel = str ''Zabiegi'' @ [0x0A] @ str ''piel'' @ [0x119] @ str ''gnacyjne''"

definition lpLabel :: jsstring where
  "lpLabel = str ''Lp.''"

definition speciesLabel :: jsstring where
  "speciesLabel = str ''Nazwa gatunku'' @ [0x0A] @ str ''[polska/'' @ [0x142] @ str ''aci''
                  @ [0x144] @ str ''ska]''"

definition nettoLabel :: jsstring where
  "nettoLabel = str ''Warto'' @ [0x15B, 0x107, 0x0A] @ str ''zabieg'' @ [0xF3] @ str ''w'' @ [0x0A]
                @ str ''piel'' @ [0x119] @ str ''gnacyjnych'' @ [0x0A] @ str ''[netto]'' @ [0x0A]
                @ str ''[PLN]''"

definition bruttoLabel :: jsstring where
  "bruttoLabel = str ''Warto'' @ [0x15B, 0x107, 0x0A] @ str ''zabieg'' @ [0xF3] @ str ''w'' @ [0x0A]
                 @ str ''piel'' @ [0x119] @ str ''gnacyjnych'' @ [0x0A] @ str ''[brutto]'' @ [0x0A]
                 @ str ''[PLN]''"

text \<open>
  \<^verbatim>\<open>if (idx !== -1 && newHeaders[idx]) newHeaders[idx] = label\<close>: the header is
  replaced when it exists and is not the empty string.
\<close>

definition relabelAt :: "nat option \<Rightarrow> jsstring \<Rightarrow> jsstring list \<Rightarrow> jsstring list" where
  "relabelAt idx label hs =
     (case idx of
        None \<Rightarrow> hs
      | Some i \<Rightarrow> if orEmpty (elemAt hs i) \<noteq> [] then hs[i := label] else hs)"

text \<open>
  The four substitutions. \<^verbatim>\<open>newHeaders[0].toLowerCase()\<close> and
  \<^verbatim>\<open>newHeaders[1].toLowerCase()\<close> are property reads on an array element.
\<close>

definition relabelLp :: "jsstring list \<Rightarrow> error + jsstring list" where
  "relabelLp hs =
     (if 0 < length hs then
        (case elemAt hs 0 of
           None \<Rightarrow> Inl TypeError
         | Some e0 \<Rightarrow>
             (let h0 = toLowerCase e0
              in if includesStr h0 (str ''lp'') \<or> h0 = str ''1'' \<or> h0 = [] \<or> h0 = str ''no''
                 then Inr (hs[0 := lpLabel]) else Inr hs))
      else Inr hs)"

definition relabelSpecies :: "nat option \<Rightarrow> nat option \<Rightarrow> jsstring list \<Rightarrow> error + jsstring list" where
  "relabelSpecies bestCirc bestTreat hs =
     (if 1 < length hs \<and> bestCirc \<noteq> Some 1 \<and> bestTreat \<noteq> Some 1 then
        (case elemAt hs 1 of
           None \<Rightarrow> Inl TypeError
         | Some e1 \<Rightarrow>
             (let h1 = toLowerCase e1
              in if includesStr h1 (str ''gatun'') \<or> includesStr h1 (str ''nazwa'') \<or> h1 = []
                 then Inr (hs[1 := speciesLabel]) else Inr hs))
      else Inr hs)"

definition relabelHeaders :: "nat option \<Rightarrow> nat option \<Rightarrow> jsstring list \<Rightarrow> error + jsstring list" where
  "relabelHeaders bestCirc bestTreat hs =
     (case relabelLp (relabelAt bestTreat treatLabel (relabelAt bestCirc circLabel hs)) of
        Inl e \<Rightarrow> Inl e
      | Inr hs1 \<Rightarrow> relabelSpecies bestCirc bestTreat hs1)"

text \<open>The whole renaming step: the substitutions, then the two price headers.\<close>

definition renameHeaders :: "nat option \<Rightarrow> nat option \<Rightarrow> jsstring list \<Rightarrow> error + jsstring list" where
  "renameHeaders bestCirc bestTreat hs =
     (case relabelHeaders bestCirc bestTreat hs of
        Inl e \<Rightarrow> Inl e
      | Inr hs1 \<Rightarrow> if 0 < length hs1 then Inr (hs1 @ [nettoLabel, bruttoLabel]) else Inr hs1)"

section \<open>Pricing\<close>

text \<open>\<^verbatim>\<open>formatPrice\<close>: two decimals, without a trailing \<^verbatim>\<open>.00\<close>.\<close>

definition formatPrice :: "number \<Rightarrow> jsstring" where
  "formatPrice val =
     (let fixed = toFixed2 val
      in if endsWith fixed (str ''.00'') then take (length fixed - 3) fixed else fixed)"

text \<open>
  The expression built by \<^verbatim>\<open>getTreatmentCount\<close> for a code of letters and digits,
  \<^verbatim>\<open>(?:(\d+)\s*x\s*)?\b(code)\b(?:\s*x\s*(\d+))?\<close> with the flags \<^verbatim>\<open>ig\<close>.
\<close>

fun literal :: "jsstring \<Rightarrow> regex" where
  "literal [] = Eps"
| "literal [c] = LitI c"
| "literal (c # cs) = Seq (LitI c) (literal cs)"

definition treatmentPattern :: "jsstring \<Rightarrow> regex" where
  "treatmentPattern code =
     Seq (Opt (Seq (Grp 1 (Rep 1 Digit)) (Seq (Rep 0 Space) (Seq (LitI 0x78) (Rep 0 Space)))))
         (Seq Bnd (Seq (Grp 2 (literal code))
              (Seq Bnd (Opt (Seq (Rep 0 Space) (Seq (LitI 0x78) (Seq (Rep 0 Space)
                                 (Grp 3 (Rep 1 Digit)))))))))"

text \<open>\<^verbatim>\<open>match[1] || match[3] || '1'\<close>, on the captures of one match.\<close>

definition multiplierText :: "mstate \<Rightarrow> jsstring" where
  "multiplierText s =
     (if orEmpty (snd s 1) \<noteq> [] then orEmpty (snd s 1)
      else if orEmpty (snd s 3) \<noteq> [] then orEmpty (snd s 3)
      else str ''1'')"

definition getTreatmentCount :: "jsstring \<Rightarrow> jsstring \<Rightarrow> number" where
  "getTreatmentCount text code =
     (let matches = matchAll (treatmentPattern code) text 0
      in if length matches = 0 then Num 0
         else foldl (\<lambda>totalCount m. jadd totalCount (parseInt (multiplierText m))) (Num 0) matches)"

text \<open>\<^verbatim>\<open>circCell.match(/(\d+)/)\<close>: the first run of digits of the cell.\<close>

definition firstDigits :: "jsstring \<Rightarrow> jsstring" where
  "firstDigits s = takeWhile isDigit (dropWhile (\<lambda>c. \<not> isDigit c) s)"

fun findIndex :: "('a \<Rightarrow> bool) \<Rightarrow> 'a list \<Rightarrow> nat option" where
  "findIndex P [] = None"
| "findIndex P (x # xs) = (if P x then Some 0 else map_option Suc (findIndex P xs))"

definition csFamilyTreatmentCount :: "jsstring \<Rightarrow> int" where
  "csFamilyTreatmentCount tLower =
     (if list_ex (includesStr tLower) [str ''cs'', str ''ci'' @ [0x119] @ str ''c'', str ''ciec'']
      then 1 else 0)
     + (if list_ex (includesStr tLower) [str ''cr''] then 1 else 0)
     + (if list_ex (includesStr tLower) [str ''cp''] then 1 else 0)"

text \<open>
  Step 1 of the row price, on the running \<^verbatim>\<open>rowPriceNetto\<close>.
  \<^verbatim>\<open>DEFAULT_PRICING_SCHEDULE[tierIndex].price\<close> is a property read on an array element.
\<close>

definition addCsPrice :: "ProcessingOptions \<Rightarrow> jsstring \<Rightarrow> jsstring \<Rightarrow> number \<Rightarrow> error + number" where
  "addCsPrice options circCell tLower rowPriceNetto =
     (let n = csFamilyTreatmentCount tLower
      in if 0 < n then
           (let m = firstDigits circCell
            in if m \<noteq> [] then
                 (let cm = parseInt m
                  in case findIndex (\<lambda>t. jge cm (tmin t) \<and> jle cm (tmax t)) DEFAULT_PRICING_SCHEDULE of
                       None \<Rightarrow> Inr rowPriceNetto
                     | Some tierIndex \<Rightarrow>
                         (case elemAt DEFAULT_PRICING_SCHEDULE tierIndex of
                            None \<Rightarrow> Inl TypeError
                          | Some tier \<Rightarrow>
                              (let basePrice0 = price tier;
                                   basePrice1 =
                                     (case customCsPrices options of
                                        None \<Rightarrow> basePrice0
                                      | Some cps \<Rightarrow> (case elemAt cps tierIndex of
                                                       None \<Rightarrow> basePrice0
                                                     | Some cp \<Rightarrow> cp));
                                   basePrice =
                                     (case csMultiplier options of
                                        None \<Rightarrow> basePrice1
                                      | Some mult \<Rightarrow> ceil (jmul basePrice1 mult))
                               in Inr (jadd rowPriceNetto (jmul basePrice (Num (of_int n)))))))
               else Inr rowPriceNetto)
         else Inr rowPriceNetto)"

definition orDefault :: "number option \<Rightarrow> number \<Rightarrow> number" where
  "orDefault v d = (case v of None \<Rightarrow> d | Some x \<Rightarrow> x)"

text \<open>Step 2: the crown codes, by priority.\<close>

definition addCrownPrice :: "ProcessingOptions \<Rightarrow> jsstring \<Rightarrow> number \<Rightarrow> number" where
  "addCrownPrice options treatCell rowPriceNetto =
     (let w4tCount = getTreatmentCount treatCell (str ''w4t'');
          w2tCount = getTreatmentCount treatCell (str ''w2t'');
          weCount = getTreatmentCount treatCell (str ''we'')
      in if jgt w4tCount (Num 0)
         then jadd rowPriceNetto (jmul (orDefault (w4tPrice options) (Num 1200)) w4tCount)
         else if jgt w2tCount (Num 0)
         then jadd rowPriceNetto (jmul (orDefault (w2tPrice options) (Num 800)) w2tCount)
         else if jgt weCount (Num 0)
         then jadd rowPriceNetto (jmul (orDefault (wePrice options) (Num 800)) weCount)
         else rowPriceNetto)"

text \<open>Step 3: the maintenance code.\<close>

definition addKuPrice :: "ProcessingOptions \<Rightarrow> jsstring \<Rightarrow> number \<Rightarrow> number" where
  "addKuPrice options treatCell rowPriceNetto =
     (let kuCount = getTreatmentCount treatCell (str ''ku'')
      in if jgt kuCount (Num 0)
         then jadd rowPriceNetto (jmul (orDefault (kuPrice options) (Num 500)) kuCount)
         else rowPriceNetto)"

definition rowPrice :: "ProcessingOptions \<Rightarrow> nat \<Rightarrow> nat \<Rightarrow> jsstring list \<Rightarrow> error + number" where
  "rowPrice options ci ti row =
     (let circCell = orEmpty (elemAt row ci);
          treatCell = orEmpty (elemAt row ti);
          tLower = toLowerCase treatCell
      in case addCsPrice options circCell tLower (Num 0) of
           Inl e \<Rightarrow> Inl e
         | Inr p \<Rightarrow> Inr (addKuPrice options treatCell (addCrownPrice options treatCell p)))"

text \<open>
  The pricing loop over \<^verbatim>\<open>rowsToProcess\<close>; the state is
  \<^verbatim>\<open>(newRows, totalNetto, totalBrutto)\<close>.
\<close>

type_synonym pricing = "jsstring list list \<times> number \<times> number"

fun priceRows :: "ProcessingOptions \<Rightarrow> nat \<Rightarrow> nat \<Rightarrow> jsstring list list \<Rightarrow> pricing \<Rightarrow> error + pricing" where
  "priceRows options ci ti [] st = Inr st"
| "priceRows options ci ti (row # rest) (newRows, tNetto, tBrutto) =
     (case rowPrice options ci ti row of
        Inl e \<Rightarrow> Inl e
      | Inr rowPriceNetto \<Rightarrow>
          if jgt rowPriceNetto (Num 0) then
            (let rowPriceBrutto = jmul rowPriceNetto (jadd (Num 1) VAT_RATE)
             in priceRows options ci ti rest
                  (newRows @ [row @ [formatPrice rowPriceNetto, formatPrice rowPriceBrutto]],
                   jadd tNetto rowPriceNetto, jadd tBrutto rowPriceBrutto))
          else if removeZeroPriceRows options then priceRows options ci ti rest (newRows, tNetto, tBrutto)
          else priceRows options ci ti rest (newRows @ [row @ [[], []]], tNetto, tBrutto))"

section \<open>Final cleanup\<close>

definition nonEmptyRow :: "jsstring list \<Rightarrow> bool" where
  "nonEmptyRow row = list_ex (\<lambda>cell. cell \<noteq> [] \<and> trim cell \<noteq> []) (drop 1 row)"

text \<open>\<^verbatim>\<open>/^[\d.]+$/.test(t)\<close>.\<close>

definition numeralShaped :: "jsstring \<Rightarrow> bool" where
  "numeralShaped t = (t \<noteq> [] \<and> list_all (\<lambda>c. isDigit c \<or> c = 0x2E) t)"

definition renumberRow :: "nat \<times> jsstring list \<Rightarrow> jsstring list" where
  "renumberRow ir =
     (let (index, row) = ir;
          firstCell = orEmpty (elemAt row 0)
      in if firstCell \<noteq> [] \<and> numeralShaped (trim firstCell)
         then row[0 := decDigits (int index + 1)] else row)"

definition finalRows :: "ProcessingOptions \<Rightarrow> jsstring list list \<Rightarrow> jsstring list list" where
  "finalRows options newRows =
     (let nonEmptyRows = filter nonEmptyRow newRows
      in if \<not> preserveLp options \<and> 0 < length nonEmptyRows
         then map renumberRow (enumerate nonEmptyRows) else nonEmptyRows)"

section \<open>The pipeline\<close>

text \<open>
  The body of \<^verbatim>\<open>tables.map\<close>; the running totals of the enclosing function are passed
  in and returned.
\<close>

definition processTable :: "ProcessingOptions \<Rightarrow> number \<times> number \<Rightarrow> table \<Rightarrow> error + table \<times> number \<times> number" where
  "processTable options tot tbl =
     (let sel = classify tbl;
          rs = rowsToProcess options sel tbl
      in case (bestCircIdx sel, bestTreatIdx sel) of
           (Some ci, Some ti) \<Rightarrow>
             (case renameHeaders (Some ci) (Some ti) (headers tbl) of
                Inl e \<Rightarrow> Inl e
              | Inr newHeaders \<Rightarrow>
                  (case priceRows options ci ti rs ([], tot) of
                     Inl e \<Rightarrow> Inl e
                   | Inr (newRows, tot') \<Rightarrow>
                       Inr (tbl\<lparr>headers := newHeaders, rows := finalRows options newRows\<rparr>, tot')))
         | _ \<Rightarrow> Inr (tbl\<lparr>rows := rs\<rparr>, tot))"

fun mapTables :: "ProcessingOptions \<Rightarrow> table list \<Rightarrow> number \<times> number \<Rightarrow> error + table list \<times> number \<times> number" where
  "mapTables options [] tot = Inr ([], tot)"
| "mapTables options (tbl # tbls) tot =
     (case processTable options tot tbl of
        Inl e \<Rightarrow> Inl e
      | Inr (tbl', tot') \<Rightarrow>
          (case mapTables options tbls tot' of
             Inl e \<Rightarrow> Inl e
           | Inr (tbls', tot'') \<Rightarrow> Inr (tbl' # tbls', tot'')))"

definition processTablesWithPricing :: "table list \<Rightarrow> ProcessingOptions \<Rightarrow> error + ProcessingResult" where
  "processTablesWithPricing rawTables options =
     (case mergeCompatibleTables rawTables of
        Inl e \<Rightarrow> Inl e
      | Inr tables \<Rightarrow>
          (case mapTables options tables (Num 0, Num 0) of
             Inl e \<Rightarrow> Inl e
           | Inr (processed, tNetto, tBrutto) \<Rightarrow>
               Inr \<lparr>processedTables = processed,
                    totals = \<lparr>totalNetto = parseFloat (toFixed2 tNetto),
                              totalBrutto = parseFloat (toFixed2 tBrutto)\<rparr>\<rparr>))"

section \<open>The rows and totals of a priced table\<close>

text \<open>
  What the pricing loop does with one row, as functions of the row: its net price, whether
  it is billed (a net price above zero), its gross price, and the rows it contributes to
  \<^verbatim>\<open>newRows\<close>.
\<close>

definition rowNet :: "ProcessingOptions \<Rightarrow> nat \<Rightarrow> nat \<Rightarrow> jsstring list \<Rightarrow> number" where
  "rowNet options ci ti row = (case rowPrice options ci ti row of Inr p \<Rightarrow> p | Inl e \<Rightarrow> NaN)"

definition billed :: "ProcessingOptions \<Rightarrow> nat \<Rightarrow> nat \<Rightarrow> jsstring list \<Rightarrow> bool" where
  "billed options ci ti row = jgt (rowNet options ci ti row) (Num 0)"

definition grossOf :: "number \<Rightarrow> number" where
  "grossOf net = jmul net (jadd (Num 1) VAT_RATE)"

definition outputRows :: "ProcessingOptions \<Rightarrow> nat \<Rightarrow> nat \<Rightarrow> jsstring list \<Rightarrow> jsstring list list" where
  "outputRows options ci ti row =
     (if billed options ci ti row
      then [row @ [formatPrice (rowNet options ci ti row),
                   formatPrice (grossOf (rowNet options ci ti row))]]
      else if removeZeroPriceRows options then []
      else [row @ [[], []]])"

text \<open>
  The two cells that the loop appends to a row it keeps, and the rows that are in the
  output of a priced table: the billed rows, and the unbilled rows that are neither
  dropped by \<^verbatim>\<open>removeZeroPriceRows\<close> nor blank after their first cell.
\<close>

definition priceCells :: "ProcessingOptions \<Rightarrow> nat \<Rightarrow> nat \<Rightarrow> jsstring list \<Rightarrow> jsstring list" where
  "priceCells options ci ti row =
     (if billed options ci ti row
      then [formatPrice (rowNet options ci ti row), formatPrice (grossOf (rowNet options ci ti row))]
      else [[], []])"

definition retained :: "ProcessingOptions \<Rightarrow> nat \<Rightarrow> nat \<Rightarrow> jsstring list \<Rightarrow> bool" where
  "retained options ci ti row =
     (billed options ci ti row
      \<or> (\<not> removeZeroPriceRows options \<and> list_ex (\<lambda>cell. cell \<noteq> [] \<and> trim cell \<noteq> []) (drop 1 row)))"

definition pricedRows :: "ProcessingOptions \<Rightarrow> nat \<Rightarrow> nat \<Rightarrow> jsstring list list \<Rightarrow> jsstring list list" where
  "pricedRows options ci ti rs =
     map (\<lambda>row. row @ priceCells options ci ti row) (filter (retained options ci ti) rs)"

text \<open>The net prices that a table adds to the totals, in row order.\<close>

definition billedNets :: "ProcessingOptions \<Rightarrow> nat \<Rightarrow> nat \<Rightarrow> jsstring list list \<Rightarrow> number list" where
  "billedNets options ci ti rs = map (rowNet options ci ti) (filter (billed options ci ti) rs)"

section \<open>Example inputs\<close>

text \<open>The options record \<^verbatim>\<open>{}\<close>.\<close>

definition emptyOptions :: ProcessingOptions where
  "emptyOptions =
     \<lparr>removeUoRows = False, removeZeroPriceRows = False, preserveLp = False,
      wePrice = None, w2tPrice = None, w4tPrice = None, kuPrice = None,
      csMultiplier = None, customCsPrices = None\<rparr>"

text \<open>The table of the end-to-end example: one oak of 120 cm with a sanitary cut.\<close>

definition oakTable :: table where
  "oakTable =
     \<lparr>title = None,
      headers = [str ''Lp'', str ''Gatunek'', str ''Obw'' @ [0xF3] @ str ''d'', str ''Zabiegi''],
      rows = [[str ''1'', str ''D'' @ [0x105] @ str ''b'', str ''120'', str ''CS'']]\<rparr>"

text \<open>A table without headers whose columns are recognised from the cells alone.\<close>

definition bareTable :: table where
  "bareTable = \<lparr>title = None, headers = [], rows = [[str ''1'', str ''120'', str ''CS'']]\<rparr>"

text \<open>
  A table with a row that is not billed: the headers name the two columns, the treatment
  cell holds no known code.
\<close>

definition unbilledTable :: table where
  "unbilledTable =
     \<lparr>title = None, headers = [str ''obw'', str ''zabieg''], rows = [[str ''130'', str ''x'']]\<rparr>"

text \<open>Two oaks that differ only in their ordinal.\<close>

definition twoOaksTable :: table where
  "twoOaksTable =
     \<lparr>title = None,
      headers = [str ''Lp'', str ''Gatunek'', str ''Obw'' @ [0xF3] @ str ''d'', str ''Zabiegi''],
      rows = [[str ''1'', str ''D'' @ [0x105] @ str ''b'', str ''120'', str ''CS''],
              [str ''2'', str ''D'' @ [0x105] @ str ''b'', str ''120'', str ''CS'']]\<rparr>"

text \<open>
  A table whose header line is repeated among its rows, as after a page break, and a
  table in which no column is recognised, with its header line repeated as well.
\<close>

definition repeatedHeaderTable :: table where
  "repeatedHeaderTable =
     \<lparr>title = None,
      headers = [str ''Lp'', str ''Gatunek'', str ''Obw'' @ [0xF3] @ str ''d'', str ''Zabiegi''],
      rows = [[str ''Lp'', str ''Gatunek'', str ''Obw'' @ [0xF3] @ str ''d'', str ''Zabiegi''],
              [str ''7'', str ''D'' @ [0x105] @ str ''b'', str ''120'', str ''CS'']]\<rparr>"

definition plainTable :: table where
  "plainTable =
     \<lparr>title = None, headers = [str ''a'', str ''b''],
      rows = [[str ''a'', str ''b''], [str ''x'', str ''y'']]\<rparr>"

text \<open>
  A table without headers, with an empty row, a row that ends before the circumference
  column, a circumference that is no number and one above the last tier.
\<close>

definition roughTable :: table where
  "roughTable =
     \<lparr>title = None, headers = [],
      rows = [[],
              [str ''Klon'', str ''120'', str ''CS''],
              [str ''Klon''],
              [str ''Klon'', str ''abc'', str ''CS''],
              [str ''Klon'', str ''950'', str ''CS''],
              [str ''Klon'', str ''120'', str ''W4t'']]\<rparr>"

text \<open>
  The state in which the pattern for \<^verbatim>\<open>w4t\<close> matches the text \<^verbatim>\<open>W4t\<close>: the match
  ends at index 3, the second group holds the code, the two multiplier groups are
  undefined.
\<close>

definition w4tMatch :: mstate where
  "w4tMatch = (3, (\<lambda>_. None)(2 := Some (str ''W4t'')))"

section \<open>Auxiliary facts\<close>

lemma elemAt_Some_iff: "elemAt xs i = Some x \<longleftrightarrow> i < length xs \<and> xs ! i = x"
  by (auto simp: elemAt_def)

lemma elemAt_None_iff: "elemAt xs i = None \<longleftrightarrow> length xs \<le> i"
  by (auto simp: elemAt_def)

lemma findIndex_Some: "findIndex P xs = Some i \<Longrightarrow> i < length xs \<and> P (xs ! i)"
proof (induction xs arbitrary: i)
  case Nil
  then show ?case by simp
next
  case (Cons x xs)
  show ?case
  proof (cases "P x")
    case True
    with Cons.prems show ?thesis by simp
  next
    case False
    with Cons.prems obtain j where j: "findIndex P xs = Some j" "i = Suc j" by auto
    from Cons.IH [OF j(1)] j(2) show ?thesis by simp
  qed
qed

lemma addCsPrice_total: "\<exists>p. addCsPrice options circCell tLower acc = Inr p"
  unfolding addCsPrice_def Let_def
  by (auto split: option.splits simp: elemAt_None_iff dest!: findIndex_Some)

lemma rowPrice_total: "\<exists>p. rowPrice options ci ti row = Inr p"
proof -
  obtain p where "addCsPrice options (orEmpty (elemAt row ci)) (toLowerCase (orEmpty (elemAt row ti))) (Num 0) = Inr p"
    using addCsPrice_total by blast
  then show ?thesis by (simp add: rowPrice_def Let_def)
qed

lemma rowPrice_rowNet: "rowPrice options ci ti row = Inr (rowNet options ci ti row)"
  using rowPrice_total [of options ci ti row] by (auto simp: rowNet_def)

lemma priceRows_eq:
  "priceRows options ci ti rs (newRows, tNetto, tBrutto) =
     Inr (newRows @ concat (map (outputRows options ci ti) rs),
          foldl jadd tNetto (billedNets options ci ti rs),
          foldl jadd tBrutto (map grossOf (billedNets options ci ti rs)))"
proof (induction rs arbitrary: newRows tNetto tBrutto)
  case Nil
  show ?case by (simp add: billedNets_def)
next
  case (Cons row rs)
  show ?case
    by (simp add: rowPrice_rowNet Cons.IH billedNets_def outputRows_def billed_def grossOf_def Let_def)
qed

lemma relabelLp_total: "\<exists>hs'. relabelLp hs = Inr hs' \<and> length hs' = length hs"
  unfolding relabelLp_def Let_def
  by (cases hs) (auto simp: elemAt_def)

lemma relabelSpecies_total: "\<exists>hs'. relabelSpecies c t hs = Inr hs' \<and> length hs' = length hs"
  unfolding relabelSpecies_def Let_def
  by (auto simp: elemAt_def)

lemma relabelAt_length: "length (relabelAt idx l hs) = length hs"
  by (auto simp: relabelAt_def split: option.splits)

lemma relabelHeaders_total: "\<exists>hs'. relabelHeaders c t hs = Inr hs' \<and> length hs' = length hs"
proof -
  obtain h1 where h1: "relabelLp (relabelAt t treatLabel (relabelAt c circLabel hs)) = Inr h1"
    "length h1 = length hs"
    using relabelLp_total [of "relabelAt t treatLabel (relabelAt c circLabel hs)"]
    by (auto simp: relabelAt_length)
  obtain h2 where "relabelSpecies c t h1 = Inr h2" "length h2 = length h1"
    using relabelSpecies_total by blast
  with h1 show ?thesis by (simp add: relabelHeaders_def)
qed

lemma renameHeaders_total:
  "\<exists>hs'. renameHeaders c t hs = Inr hs' \<and> length hs' = (if hs = [] then 0 else length hs + 2)"
proof -
  obtain h1 where "relabelHeaders c t hs = Inr h1" "length h1 = length hs"
    using relabelHeaders_total by blast
  then show ?thesis by (auto simp: renameHeaders_def)
qed

lemma processTable_priced:
  assumes "bestCircIdx (classify tbl) = Some ci" and "bestTreatIdx (classify tbl) = Some ti"
  shows "\<exists>hs'. renameHeaders (Some ci) (Some ti) (headers tbl) = Inr hs' \<and>
           processTable options tot tbl =
             Inr (tbl\<lparr>headers := hs',
                      rows := finalRows options
                                (concat (map (outputRows options ci ti)
                                             (rowsToProcess options (classify tbl) tbl)))\<rparr>,
                  foldl jadd (fst tot) (billedNets options ci ti (rowsToProcess options (classify tbl) tbl)),
                  foldl jadd (snd tot)
                    (map grossOf (billedNets options ci ti (rowsToProcess options (classify tbl) tbl))))"
proof -
  obtain hs' where hs': "renameHeaders (Some ci) (Some ti) (headers tbl) = Inr hs'"
    using renameHeaders_total by blast
  obtain tn tb where tot: "tot = (tn, tb)" by (cases tot)
  show ?thesis
    using assms hs' by (simp add: processTable_def Let_def tot priceRows_eq)
qed

lemma processTable_unpriced:
  assumes "bestCircIdx (classify tbl) = None \<or> bestTreatIdx (classify tbl) = None"
  shows "processTable options tot tbl =
           Inr (tbl\<lparr>rows := rowsToProcess options (classify tbl) tbl\<rparr>, tot)"
  using assms by (auto simp: processTable_def Let_def split: option.splits)

lemma processTable_total: "\<exists>tbl' tot'. processTable options tot tbl = Inr (tbl', tot')"
proof (cases "bestCircIdx (classify tbl) = None \<or> bestTreatIdx (classify tbl) = None")
  case True
  from processTable_unpriced [OF this] show ?thesis by blast
next
  case False
  then obtain ci ti where "bestCircIdx (classify tbl) = Some ci" "bestTreatIdx (classify tbl) = Some ti"
    by auto
  from processTable_priced [OF this] show ?thesis by blast
qed

lemma mapTables_total: "\<exists>tbls' tot'. mapTables options tbls tot = Inr (tbls', tot')"
proof (induction tbls arbitrary: tot)
  case Nil
  show ?case by simp
next
  case (Cons tbl tbls)
  obtain tbl' tot1 where 1: "processTable options tot tbl = Inr (tbl', tot1)"
    using processTable_total by blast
  obtain tbls' tot2 where 2: "mapTables options tbls tot1 = Inr (tbls', tot2)"
    using Cons.IH by blast
  from 1 2 show ?case by simp
qed

lemma mergeCompatibleTables_total: "\<exists>tables. mergeCompatibleTables rawTables = Inr tables"
  by (cases rawTables) (auto simp: mergeCompatibleTables_def elemAt_def split: prod.splits)

lemma rowsToProcess_subset:
  "r \<in> set (rowsToProcess options sel tbl) \<Longrightarrow> r \<in> set (rows tbl) \<and> \<not> isHeaderRow r (headers tbl)"
  by (auto simp: rowsToProcess_def Let_def split: option.splits if_splits)

lemma outputRows_elem:
  "x \<in> set (outputRows options ci ti row) \<Longrightarrow> \<exists>a b. x = row @ [a, b]"
  by (auto simp: outputRows_def split: if_splits)

lemma enumerate_elem: "(i, x) \<in> set (enumerate xs) \<Longrightarrow> i < length xs \<and> x = xs ! i"
  by (auto simp: enumerate_def in_set_zip)

lemma renumberRow_cases: "renumberRow (i, row) = row \<or> renumberRow (i, row) = row[0 := decDigits (int i + 1)]"
  by (simp add: renumberRow_def Let_def)

lemma finalRows_elem:
  assumes "r \<in> set (finalRows options xs)"
  shows "\<exists>x \<in> set xs. nonEmptyRow x \<and> (r = x \<or> (\<exists>n. r = x[0 := n]))"
proof (cases "\<not> preserveLp options \<and> 0 < length (filter nonEmptyRow xs)")
  case True
  with assms obtain i x where ix: "(i, x) \<in> set (enumerate (filter nonEmptyRow xs))" "r = renumberRow (i, x)"
    by (auto simp: finalRows_def Let_def)
  from enumerate_elem [OF ix(1)] have "x \<in> set (filter nonEmptyRow xs)" using nth_mem by blast
  with ix(2) renumberRow_cases [of i x] show ?thesis by auto
next
  case False
  with assms have "r \<in> set (filter nonEmptyRow xs)" by (auto simp: finalRows_def Let_def)
  then show ?thesis by auto
qed

lemma renameHeaders_Nil: "renameHeaders c t [] = Inr []"
  by (simp add: renameHeaders_def relabelHeaders_def relabelLp_def relabelSpecies_def relabelAt_def
      elemAt_def orEmpty_def split: option.splits)

lemma bare_facts:
  "headers bareTable = []" "bestCircIdx (classify bareTable) = Some 0"
  "bestTreatIdx (classify bareTable) = Some 2"
  by code_simp+

lemma trim_Nil_iff: "trim s = [] \<longleftrightarrow> (\<forall>c \<in> set s. isSpace c)"
proof
  assume "trim s = []"
  then have all: "\<forall>c \<in> set (dropWhile isSpace s). isSpace c"
    by (simp add: trim_def dropWhile_eq_Nil_conv)
  have "dropWhile isSpace s = []"
  proof (cases "dropWhile isSpace s")
    case Nil
    then show ?thesis .
  next
    case (Cons c cs)
    then have "\<not> isSpace c" using hd_dropWhile [of isSpace s] by auto
    with Cons all show ?thesis by auto
  qed
  then show "\<forall>c \<in> set s. isSpace c" by (simp add: dropWhile_eq_Nil_conv)
next
  assume "\<forall>c \<in> set s. isSpace c"
  then have "dropWhile isSpace s = []" by (simp add: dropWhile_eq_Nil_conv)
  then show "trim s = []" by (simp add: trim_def del: dropWhile_eq_Nil_conv)
qed

lemma take_Cons_pos: "0 < n \<Longrightarrow> \<exists>cs'. take n (c # cs) = c # cs'"
  by (cases n) auto

lemma isDigit_not_space: "isDigit c \<Longrightarrow> \<not> isSpace c \<and> c \<noteq> 0x2E"
  by (auto simp: isDigit_def isSpace_def)

lemma decDigits_digits: "0 \<le> n \<Longrightarrow> decDigits n \<noteq> [] \<and> (\<forall>c \<in> set (decDigits n). isDigit c)"
proof (induction n rule: decDigits.induct)
  case (1 n)
  show ?case
  proof (cases "n < 10")
    case True
    with "1.prems" show ?thesis by (simp add: decDigits.simps [of n] isDigit_def)
  next
    case False
    with "1.IH" have "decDigits (n div 10) \<noteq> [] \<and> (\<forall>c \<in> set (decDigits (n div 10)). isDigit c)"
      by simp
    moreover have "isDigit (0x30 + n mod 10)" by (simp add: isDigit_def)
    ultimately show ?thesis using False by (simp add: decDigits.simps [of n])
  qed
qed

lemma closest_mem: "closest a k c cs \<in> set (c # cs)"
proof -
  have *: "foldl f c cs \<in> set (c # cs)" if "\<And>b c. f b c = b \<or> f b c = c" for f :: "int \<times> int \<Rightarrow> int \<times> int \<Rightarrow> int \<times> int"
    using that
  proof (induction cs arbitrary: c)
    case Nil
    show ?case by simp
  next
    case (Cons x xs)
    from Cons.IH [of "f c x"] Cons.prems have "foldl f (f c x) xs \<in> set (f c x # xs)" by blast
    moreover from Cons.prems have "f c x = c \<or> f c x = x" by blast
    ultimately show ?case by auto
  qed
  have "\<And>b c. (if \<bar>of_int (fst c) * 10 ^ nat (snd c - k) - a\<bar>
                        < \<bar>of_int (fst b) * 10 ^ nat (snd b - k) - a\<bar>
                   then c else b) = b \<or> (if \<bar>of_int (fst c) * 10 ^ nat (snd c - k) - a\<bar>
                        < \<bar>of_int (fst b) * 10 ^ nat (snd b - k) - a\<bar>
                   then c else b) = c" by auto
  from * [OF this] show ?thesis unfolding closest_def .
qed

lemma candidates_pos: "(s, n) \<in> set (candidates a d k) \<Longrightarrow> 0 < s"
proof -
  assume "(s, n) \<in> set (candidates a d k)"
  then have "(10::int) ^ nat (k - 1) \<le> s" by (auto simp: candidates_def Let_def split: if_splits)
  moreover have "(0::int) < 10 ^ nat (k - 1)" by simp
  ultimately show ?thesis by linarith
qed

lemma shortestFrom_nonneg: "0 \<le> a \<Longrightarrow> shortestFrom a d ks = (s, n, k) \<Longrightarrow> 0 \<le> s"
proof (induction ks)
  case Nil
  then show ?case by (auto simp: zero_le_divide_iff)
next
  case (Cons k' ks)
  show ?case
  proof (cases "candidates a d k'")
    case Nil
    with Cons show ?thesis by simp
  next
    case (Cons c cs)
    obtain s' n' where sn: "closest a k' c cs = (s', n')" by (cases "closest a k' c cs")
    with Cons Cons.prems(2) have s: "s = s'" by simp
    from closest_mem [of a k' c cs] sn Cons have "(s', n') \<in> set (candidates a d k')" by simp
    from candidates_pos [OF this] s show ?thesis by simp
  qed
qed

lemma toStringLarge_head: "0 \<le> a \<Longrightarrow> \<exists>c cs. toStringLarge a = c # cs \<and> isDigit c"
proof -
  assume a: "0 \<le> a"
  obtain s n k where snk: "shortestFrom a (int (length (decDigits \<lfloor>a\<rfloor>))) [1 .. 17] = (s, n, k)"
    using prod_cases3 by blast
  from shortestFrom_nonneg [OF a snk] have "0 \<le> s" .
  from decDigits_digits [OF this] obtain c cs where ds: "decDigits s = c # cs" "isDigit c"
    by (cases "decDigits s") auto
  show ?thesis using snk ds by (auto simp: toStringLarge_def Let_def)
qed

lemma fixedAbs_head: "0 \<le> a \<Longrightarrow> \<exists>c cs. fixedAbs a = c # cs \<and> isDigit c"
proof (cases "10 ^ 21 \<le> a")
  case True
  assume "0 \<le> a"
  from toStringLarge_head [OF this] True show ?thesis by (simp add: fixedAbs_def)
next
  case False
  assume a: "0 \<le> a"
  let ?m = "decDigits \<lfloor>a * 100 + 1/2\<rfloor>"
  let ?p = "replicate (3 - length ?m) 0x30 @ ?m"
  have "0 \<le> \<lfloor>a * 100 + 1/2\<rfloor>" using a by simp
  from decDigits_digits [OF this] have m: "?m \<noteq> []" "\<forall>c \<in> set ?m. isDigit c" by auto
  have p: "\<forall>c \<in> set ?p. isDigit c" using m(2) by (auto simp: isDigit_def)
  have len: "3 \<le> length ?p" by simp
  then obtain c cs where ccs: "?p = c # cs" by (cases ?p) auto
  with p have c: "isDigit c" by simp
  from len have "0 < length ?p - 2" by simp
  from take_Cons_pos [OF this, of c cs] ccs obtain cs' where t: "take (length ?p - 2) ?p = c # cs'"
    by auto
  have "fixedAbs a = take (length ?p - 2) ?p @ str ''.'' @ drop (length ?p - 2) ?p"
    using False by (simp only: fixedAbs_def Let_def if_False)
  then have "fixedAbs a = c # (cs' @ str ''.'' @ drop (length ?p - 2) ?p)"
    by (simp only: t append_Cons)
  with c show ?thesis by blast
qed

lemma toFixed2_head: "\<exists>c cs. toFixed2 x = c # cs \<and> \<not> isSpace c \<and> c \<noteq> 0x2E"
proof (cases x)
  case (Num r)
  show ?thesis
  proof (cases "r < 0")
    case True
    with Num show ?thesis by (simp add: str_def isSpace_def)
  next
    case False
    then have "0 \<le> r" by simp
    from fixedAbs_head [OF this] isDigit_not_space Num False show ?thesis by auto
  qed
qed (simp_all add: str_def isSpace_def)

lemma formatPrice_nonblank: "formatPrice x \<noteq> [] \<and> trim (formatPrice x) \<noteq> []"
proof -
  obtain c cs where f: "toFixed2 x = c # cs" "\<not> isSpace c" "c \<noteq> 0x2E"
    using toFixed2_head by blast
  have "\<exists>cs'. formatPrice x = c # cs'"
  proof (cases "endsWith (toFixed2 x) (str ''.00'')")
    case True
    then obtain pre where pre: "c # cs = pre @ str ''.00''" using f(1) by (auto simp: endsWith_def suffix_def)
    with f(3) have "pre \<noteq> []" by (auto simp: str_def)
    then have "3 < length (c # cs)" using pre by (cases pre) (auto simp: str_def)
    then have "0 < length (c # cs) - 3" by simp
    from take_Cons_pos [OF this, of c cs] obtain cs' where t: "take (length (c # cs) - 3) (c # cs) = c # cs'"
      by auto
    have "formatPrice x = take (length (toFixed2 x) - 3) (toFixed2 x)"
      using True by (simp only: formatPrice_def Let_def if_True)
    with t f(1) show ?thesis by simp
  next
    case False
    with f(1) show ?thesis by (simp add: formatPrice_def)
  qed
  then obtain cs' where "formatPrice x = c # cs'" by blast
  with f(2) show ?thesis by (auto simp: trim_Nil_iff)
qed

lemma nonEmptyRow_priced: "nonEmptyRow (row @ [a, formatPrice x])"
proof -
  have "formatPrice x \<in> set (drop 1 (row @ [a, formatPrice x]))"
    by (cases row) auto
  with formatPrice_nonblank [of x] show ?thesis
    unfolding nonEmptyRow_def list_ex_iff by blast
qed

lemma enumerate_mem: "i < length xs \<Longrightarrow> (i, xs ! i) \<in> set (enumerate xs)"
  unfolding enumerate_def in_set_zip by (intro exI [of _ i]) simp

lemma finalRows_mem:
  assumes "x \<in> set xs" and "nonEmptyRow x"
  shows "\<exists>r \<in> set (finalRows options xs). r = x \<or> (\<exists>n. r = x[0 := n])"
proof -
  let ?ys = "filter nonEmptyRow xs"
  from assms have "x \<in> set ?ys" by simp
  then obtain i where i: "i < length ?ys" "?ys ! i = x" by (metis in_set_conv_nth)
  show ?thesis
  proof (cases "\<not> preserveLp options \<and> 0 < length ?ys")
    case True
    have "(i, x) \<in> set (enumerate ?ys)"
      using enumerate_mem [OF i(1)] i(2) by simp
    then have "renumberRow (i, x) \<in> set (finalRows options xs)"
      using True by (auto simp: finalRows_def Let_def)
    with renumberRow_cases [of i x] show ?thesis by metis
  next
    case False
    with \<open>x \<in> set ?ys\<close> have "x \<in> set (finalRows options xs)" by (auto simp: finalRows_def Let_def)
    then show ?thesis by blast
  qed
qed

lemma oak_facts:
  "bestCircIdx (classify oakTable) = Some 2"
  "bestTreatIdx (classify oakTable) = Some 3"
  "[str ''1'', str ''D'' @ [0x105] @ str ''b'', str ''120'', str ''CS'']
     \<in> set (rowsToProcess emptyOptions (classify oakTable) oakTable)"
  "rowPrice emptyOptions 2 3 [str ''1'', str ''D'' @ [0x105] @ str ''b'', str ''120'', str ''CS''] = Inr (Num 792)"
  "jgt (Num 792) (Num 0)"
  by code_simp+

lemma oak_result:
  "processTablesWithPricing [oakTable] emptyOptions =
     Inr \<lparr>processedTables =
            [\<lparr>title = None,
              headers = [lpLabel, speciesLabel, circLabel, treatLabel, nettoLabel, bruttoLabel],
              rows = [[str ''1'', str ''D'' @ [0x105] @ str ''b'', str ''120'', str ''CS'',
                       str ''792'', str ''855.36'']]\<rparr>],
          totals = \<lparr>totalNetto = Num 792, totalBrutto = round64 (85536 / 100)\<rparr>\<rparr>"
  by code_simp

lemma oak_merged: "mergeCompatibleTables [oakTable] = Inr [oakTable]"
  by code_simp

lemma mapTables_all2:
  "mapTables options tbls tot = Inr (tbls', tot') \<Longrightarrow>
     list_all2 (\<lambda>tbl tbl'. \<exists>tot1 tot2. processTable options tot1 tbl = Inr (tbl', tot2)) tbls tbls'"
proof (induction tbls arbitrary: tot tbls' tot')
  case Nil
  then show ?case by simp
next
  case (Cons tbl tbls)
  obtain t1 tot1 where 1: "processTable options tot tbl = Inr (t1, tot1)"
    using processTable_total by blast
  obtain ts2 tot2 where 2: "mapTables options tbls tot1 = Inr (ts2, tot2)"
    using mapTables_total by blast
  from Cons.prems 1 2 have eq: "tbls' = t1 # ts2" by simp
  have "\<exists>tot1 tot2. processTable options tot1 tbl = Inr (t1, tot2)" using 1 by blast
  with Cons.IH [OF 2] eq show ?case by simp
qed

lemma processed_all2:
  assumes "processTablesWithPricing rawTables options = Inr res"
    and "mergeCompatibleTables rawTables = Inr merged"
  shows "list_all2 (\<lambda>tbl tbl'. \<exists>tot1 tot2. processTable options tot1 tbl = Inr (tbl', tot2))
           merged (processedTables res)"
proof -
  obtain processed tot where m: "mapTables options merged (Num 0, Num 0) = Inr (processed, tot)"
    using mapTables_total by blast
  with assms have "processedTables res = processed"
    by (auto simp: processTablesWithPricing_def split: prod.splits)
  with mapTables_all2 [OF m] show ?thesis by simp
qed

lemma processTable_rows:
  assumes "processTable options tot tbl = Inr (tbl', tot')" and "r \<in> set (rows tbl')"
  shows "\<exists>r0 \<in> set (rows tbl). \<not> isHeaderRow r0 (headers tbl) \<and>
           (r = r0 \<or> (\<exists>a b. r = r0 @ [a, b] \<or> (\<exists>n. r = (r0 @ [a, b])[0 := n])))"
proof (cases "bestCircIdx (classify tbl) = None \<or> bestTreatIdx (classify tbl) = None")
  case True
  from processTable_unpriced [OF True, of options tot] assms
  have "r \<in> set (rowsToProcess options (classify tbl) tbl)" by auto
  from rowsToProcess_subset [OF this] show ?thesis by blast
next
  case False
  then obtain ci ti where c: "bestCircIdx (classify tbl) = Some ci" "bestTreatIdx (classify tbl) = Some ti"
    by auto
  let ?rs = "rowsToProcess options (classify tbl) tbl"
  let ?new = "concat (map (outputRows options ci ti) ?rs)"
  from processTable_priced [OF c, of options tot] assms have "r \<in> set (finalRows options ?new)"
    by auto
  from finalRows_elem [OF this] obtain x where x: "x \<in> set ?new" "r = x \<or> (\<exists>n. r = x[0 := n])"
    by blast
  from x(1) obtain r0 where r0: "r0 \<in> set ?rs" "x \<in> set (outputRows options ci ti r0)" by auto
  from outputRows_elem [OF r0(2)] obtain a b where ab: "x = r0 @ [a, b]" by blast
  from rowsToProcess_subset [OF r0(1)] x(2) ab show ?thesis by blast
qed

lemma processTable_unpriced_purged:
  assumes "processTable options tot tbl = Inr (tbl', tot')"
    and "bestCircIdx (classify tbl) = None \<or> bestTreatIdx (classify tbl) = None"
  shows "headers tbl' = headers tbl \<and> (\<forall>r \<in> set (rows tbl'). \<not> isHeaderRow r (headers tbl'))"
  using processTable_unpriced [OF assms(2), of options tot] assms(1) rowsToProcess_subset
  by auto

lemma nonEmptyRow_blank_cells:
  "nonEmptyRow (row @ [[], []]) = list_ex (\<lambda>cell. cell \<noteq> [] \<and> trim cell \<noteq> []) (drop 1 row)"
  by (cases row) (simp_all add: nonEmptyRow_def)

lemma filter_outputRows:
  "filter nonEmptyRow (outputRows options ci ti row) =
     (if retained options ci ti row then [row @ priceCells options ci ti row] else [])"
  by (simp add: outputRows_def retained_def priceCells_def nonEmptyRow_priced nonEmptyRow_blank_cells)

lemma filter_concat_outputRows:
  "filter nonEmptyRow (concat (map (outputRows options ci ti) rs)) = pricedRows options ci ti rs"
proof (induction rs)
  case Nil
  show ?case by (simp add: pricedRows_def)
next
  case (Cons row rs)
  have "filter nonEmptyRow (concat (map (outputRows options ci ti) (row # rs))) =
          filter nonEmptyRow (outputRows options ci ti row)
          @ filter nonEmptyRow (concat (map (outputRows options ci ti) rs))"
    by simp
  also have "\<dots> = (if retained options ci ti row then [row @ priceCells options ci ti row] else [])
                    @ pricedRows options ci ti rs"
    by (simp only: filter_outputRows Cons.IH)
  also have "\<dots> = pricedRows options ci ti (row # rs)"
    by (simp add: pricedRows_def)
  finally show ?case .
qed

lemma enumerate_Nil: "enumerate [] = []"
  by (simp add: enumerate_def)

lemma finalRows_eq:
  "finalRows options xs =
     (if preserveLp options then filter nonEmptyRow xs
      else map renumberRow (enumerate (filter nonEmptyRow xs)))"
  by (cases "filter nonEmptyRow xs") (simp_all add: finalRows_def Let_def enumerate_Nil)

lemma processTable_priced_rows:
  assumes "bestCircIdx (classify tbl) = Some ci" and "bestTreatIdx (classify tbl) = Some ti"
  shows "\<exists>hs' tot'. renameHeaders (Some ci) (Some ti) (headers tbl) = Inr hs' \<and>
           processTable options tot tbl =
             Inr (tbl\<lparr>headers := hs',
                      rows := (if preserveLp options
                               then pricedRows options ci ti (rowsToProcess options (classify tbl) tbl)
                               else map renumberRow
                                      (enumerate (pricedRows options ci ti
                                                    (rowsToProcess options (classify tbl) tbl))))\<rparr>,
                  tot')"
  using processTable_priced [OF assms, of options tot]
  by (auto simp: finalRows_eq filter_concat_outputRows)

lemma billed_retained: "billed options ci ti row \<Longrightarrow> retained options ci ti row"
  by (simp add: retained_def)

lemma filter_billed_retained:
  "filter (billed options ci ti) (filter (retained options ci ti) rs) = filter (billed options ci ti) rs"
  by (induction rs) (auto simp: billed_retained)

lemma rowsToProcess_eq:
  "rowsToProcess options sel tbl =
     filter (\<lambda>row. \<not> isHeaderRow row (headers tbl)
                   \<and> (case bestTreatIdx sel of
                        Some ti \<Rightarrow> removeUoRows options \<longrightarrow> keepNonUo ti row
                      | None \<Rightarrow> True))
            (rows tbl)"
  by (auto simp: rowsToProcess_def Let_def split: option.splits intro: filter_cong)

lemma filter_positions:
  "\<exists>f. (\<forall>j k. j < k \<and> k < length (filter P xs) \<longrightarrow> f j < f k)
       \<and> (\<forall>j < length (filter P xs). f j < length xs \<and> xs ! f j = filter P xs ! j)"
proof (induction xs)
  case Nil
  show ?case by simp
next
  case (Cons x xs)
  from Cons.IH obtain f where f1: "\<forall>j k. j < k \<and> k < length (filter P xs) \<longrightarrow> f j < f k"
    and f2: "\<forall>j < length (filter P xs). f j < length xs \<and> xs ! f j = filter P xs ! j"
    by (elim exE conjE)
  show ?case
  proof (cases "P x")
    case True
    define g where "g = (\<lambda>j. case j of 0 \<Rightarrow> 0 | Suc j' \<Rightarrow> Suc (f j'))"
    have g0: "g 0 = 0" and gS: "\<And>j. g (Suc j) = Suc (f j)" by (simp_all add: g_def)
    have 1: "g j < g k" if "j < k \<and> k < length (filter P (x # xs))" for j k
    proof (cases k)
      case 0
      with that show ?thesis by simp
    next
      case (Suc k')
      show ?thesis
      proof (cases j)
        case 0
        then show ?thesis by (simp add: g0 gS Suc)
      next
        case (Suc j')
        with that \<open>k = Suc k'\<close> True have "j' < k' \<and> k' < length (filter P xs)" by simp
        with f1 have "f j' < f k'" by blast
        then show ?thesis by (simp add: gS Suc \<open>k = Suc k'\<close>)
      qed
    qed
    have 2: "g j < length (x # xs) \<and> (x # xs) ! g j = filter P (x # xs) ! j"
      if "j < length (filter P (x # xs))" for j
    proof (cases j)
      case 0
      then show ?thesis using True by (simp add: g0)
    next
      case (Suc j')
      with that True have "j' < length (filter P xs)" by simp
      with f2 have "f j' < length xs \<and> xs ! f j' = filter P xs ! j'" by blast
      then show ?thesis using True by (simp add: gS Suc)
    qed
    show ?thesis
      by (rule exI [of _ g]) (use 1 2 in blast)
  next
    case False
    define g where "g = (\<lambda>j. Suc (f j))"
    have 1: "g j < g k" if "j < k \<and> k < length (filter P (x # xs))" for j k
    proof -
      from that False have "j < k \<and> k < length (filter P xs)" by simp
      with f1 have "f j < f k" by blast
      then show ?thesis by (simp add: g_def)
    qed
    have 2: "g j < length (x # xs) \<and> (x # xs) ! g j = filter P (x # xs) ! j"
      if "j < length (filter P (x # xs))" for j
    proof -
      from that False have "j < length (filter P xs)" by simp
      with f2 have "f j < length xs \<and> xs ! f j = filter P xs ! j" by blast
      then show ?thesis using False by (simp add: g_def)
    qed
    show ?thesis
      by (rule exI [of _ g]) (use 1 2 in blast)
  qed
qed

lemma processTable_priced_full:
  assumes "bestCircIdx (classify tbl) = Some ci" and "bestTreatIdx (classify tbl) = Some ti"
  shows "\<exists>hs'. renameHeaders (Some ci) (Some ti) (headers tbl) = Inr hs' \<and>
           processTable options tot tbl =
             Inr (tbl\<lparr>headers := hs',
                      rows := (if preserveLp options
                               then pricedRows options ci ti (rowsToProcess options (classify tbl) tbl)
                               else map renumberRow
                                      (enumerate (pricedRows options ci ti
                                                    (rowsToProcess options (classify tbl) tbl))))\<rparr>,
                  foldl jadd (fst tot) (billedNets options ci ti (rowsToProcess options (classify tbl) tbl)),
                  foldl jadd (snd tot)
                    (map grossOf (billedNets options ci ti (rowsToProcess options (classify tbl) tbl))))"
  using processTable_priced [OF assms, of options tot]
  by (auto simp: finalRows_eq filter_concat_outputRows)

lemma enumerate_length: "length (enumerate xs) = length xs"
  by (simp add: enumerate_def)

lemma enumerate_nth: "i < length xs \<Longrightarrow> enumerate xs ! i = (i, xs ! i)"
  by (simp add: enumerate_def)

lemma output_nth:
  assumes "i < length xs"
  shows "(if preserveLp options then xs else map renumberRow (enumerate xs)) ! i =
           (if preserveLp options then xs ! i else renumberRow (i, xs ! i))"
  using assms by (simp add: enumerate_length enumerate_nth)

lemma output_length:
  "length (if preserveLp options then xs else map renumberRow (enumerate xs)) = length xs"
  by (simp add: enumerate_length)

lemma renumberRow_length: "length (renumberRow (i, row)) = length row"
  using renumberRow_cases [of i row] by auto

lemma priceCells_length: "length (priceCells options ci ti row) = 2"
  by (simp add: priceCells_def)

lemma twoOaks_facts:
  "bestCircIdx (classify twoOaksTable) = Some 2"
  "bestTreatIdx (classify twoOaksTable) = Some 3"
  by code_simp+

lemma twoOaks_billed:
  "filter (billed emptyOptions 2 3) (rowsToProcess emptyOptions (classify twoOaksTable) twoOaksTable) =
     [[str ''1'', str ''D'' @ [0x105] @ str ''b'', str ''120'', str ''CS''], [str ''2'', str ''D'' @ [0x105] @ str ''b'', str ''120'', str ''CS'']]"
  by code_simp

lemma twoOaks_result:
  "processTable emptyOptions (Num 0, Num 0) twoOaksTable =
     Inr (\<lparr>title = None,
           headers = [lpLabel, speciesLabel, circLabel, treatLabel, nettoLabel, bruttoLabel],
           rows = [[str ''1'', str ''D'' @ [0x105] @ str ''b'', str ''120'', str ''CS''] @ [str ''792'', str ''855.36''], [str ''2'', str ''D'' @ [0x105] @ str ''b'', str ''120'', str ''CS''] @ [str ''792'', str ''855.36'']]\<rparr>,
          Num 1584, round64 (171072 / 100))"
  by code_simp

lemma bare_kept:
  "filter (retained emptyOptions 0 2) (rowsToProcess emptyOptions (classify bareTable) bareTable) =
     [[str ''1'', str ''120'', str ''CS'']]"
  by code_simp

lemma bare_result:
  "processTable emptyOptions (Num 0, Num 0) bareTable =
     Inr (\<lparr>title = None, headers = [],
           rows = [[str ''1'', str ''120'', str ''CS'', str ''730'', str ''788.40'']]\<rparr>,
          Num 730, jmul (Num 730) (jadd (Num 1) VAT_RATE))"
  by code_simp

lemma repeated_facts:
  "bestCircIdx (classify repeatedHeaderTable) = Some 2"
  "bestTreatIdx (classify repeatedHeaderTable) = Some 3"
  "bestCircIdx (classify plainTable) = None"
  "bestTreatIdx (classify plainTable) = None"
  by code_simp+

lemma repeated_header_rows:
  "isHeaderRow [str ''Lp'', str ''Gatunek'', str ''Obw'' @ [0xF3] @ str ''d'', str ''Zabiegi''] (headers repeatedHeaderTable)"
  "isHeaderRow [str ''a'', str ''b''] (headers plainTable)"
  by code_simp+

lemma repeated_merged:
  "mergeCompatibleTables [repeatedHeaderTable, plainTable] = Inr [repeatedHeaderTable, plainTable]"
  by code_simp

lemma repeated_result:
  "processTablesWithPricing [repeatedHeaderTable, plainTable] emptyOptions =
     Inr \<lparr>processedTables =
            [\<lparr>title = None,
              headers = [lpLabel, speciesLabel, circLabel, treatLabel, nettoLabel, bruttoLabel],
              rows = [[str ''1'', str ''D'' @ [0x105] @ str ''b'', str ''120'', str ''CS'', str ''792'', str ''855.36'']]\<rparr>,
             \<lparr>title = None, headers = [str ''a'', str ''b''], rows = [[str ''x'', str ''y'']]\<rparr>],
          totals = \<lparr>totalNetto = Num 792, totalBrutto = round64 (85536 / 100)\<rparr>\<rparr>"
  by code_simp

lemma processTable_shape:
  assumes "processTable options tot tbl = Inr (tbl', tot')"
  shows "case (bestCircIdx (classify tbl), bestTreatIdx (classify tbl)) of
           (Some ci, Some ti) \<Rightarrow>
             renameHeaders (Some ci) (Some ti) (headers tbl) = Inr (headers tbl')
             \<and> rows tbl' =
                 (if preserveLp options
                  then pricedRows options ci ti (rowsToProcess options (classify tbl) tbl)
                  else map renumberRow
                         (enumerate (pricedRows options ci ti (rowsToProcess options (classify tbl) tbl))))
         | _ \<Rightarrow>
             headers tbl' = headers tbl \<and> rows tbl' = rowsToProcess options (classify tbl) tbl
             \<and> (\<forall>r \<in> set (rows tbl'). \<not> isHeaderRow r (headers tbl'))"
proof (cases "bestCircIdx (classify tbl) = None \<or> bestTreatIdx (classify tbl) = None")
  case True
  from processTable_unpriced [OF True, of options tot] assms
  have "tbl' = tbl\<lparr>rows := rowsToProcess options (classify tbl) tbl\<rparr>" by simp
  with True show ?thesis
    by (auto simp: rowsToProcess_eq split: option.splits)
next
  case False
  then obtain ci ti where c: "bestCircIdx (classify tbl) = Some ci" "bestTreatIdx (classify tbl) = Some ti"
    by auto
  from processTable_priced_rows [OF c, of options tot] assms c show ?thesis
    by auto
qed

lemma findIndex_None: "(\<And>x. x \<in> set xs \<Longrightarrow> \<not> P x) \<Longrightarrow> findIndex P xs = None"
  by (induction xs) simp_all

lemma tier_above:
  assumes "jlt (Num 700) cm"
  shows "findIndex (\<lambda>t. jge cm (tmin t) \<and> jle cm (tmax t)) DEFAULT_PRICING_SCHEDULE = None"
proof (rule findIndex_None)
  fix x assume "x \<in> set DEFAULT_PRICING_SCHEDULE"
  then have "\<exists>b. tmax x = Num b \<and> b \<le> 700" by (auto simp: DEFAULT_PRICING_SCHEDULE_def)
  then obtain b where b: "tmax x = Num b" "b \<le> 700" by blast
  from assms b have "\<not> jle cm (tmax x)" by (cases cm) auto
  then show "\<not> (jge cm (tmin x) \<and> jle cm (tmax x))" by simp
qed

lemma addCsPrice_zero:
  assumes "firstDigits circCell = [] \<or> jlt (Num 700) (parseInt (firstDigits circCell))"
  shows "addCsPrice options circCell tLower acc = Inr acc"
  using assms by (auto simp: addCsPrice_def Let_def tier_above)

lemma getTreatmentCount_Nil:
  "getTreatmentCount [] (str ''w4t'') = Num 0"
  "getTreatmentCount [] (str ''w2t'') = Num 0"
  "getTreatmentCount [] (str ''we'') = Num 0"
  "getTreatmentCount [] (str ''ku'') = Num 0"
  by code_simp+

lemma rowPrice_short:
  assumes "length row \<le> ci"
  shows "rowPrice options ci ti row =
           Inr (addKuPrice options (orEmpty (elemAt row ti))
                  (addCrownPrice options (orEmpty (elemAt row ti)) (Num 0)))"
proof -
  from assms have "orEmpty (elemAt row ci) = []" by (simp add: elemAt_def orEmpty_def)
  moreover have "addCsPrice options [] tLower (Num 0) = Inr (Num 0)" for tLower
    by (rule addCsPrice_zero) (simp add: firstDigits_def)
  ultimately show ?thesis by (simp add: rowPrice_def Let_def)
qed

lemma rowPrice_shorter:
  assumes "length row \<le> ci" and "length row \<le> ti"
  shows "rowPrice options ci ti row = Inr (Num 0)"
proof -
  from assms(2) have "orEmpty (elemAt row ti) = []" by (simp add: elemAt_def orEmpty_def)
  then show ?thesis
    by (simp add: rowPrice_short [OF assms(1)] addKuPrice_def addCrownPrice_def
          getTreatmentCount_Nil jgt_def)
qed

lemma multiplierText_default:
  assumes "orEmpty (snd s 1) = []" and "orEmpty (snd s 3) = []"
  shows "parseInt (multiplierText s) = Num 1"
proof -
  have "parseInt (str ''1'') = Num 1" by code_simp
  with assms show ?thesis by (simp add: multiplierText_def)
qed

lemma keywordHits_Nil: "filter (includesStr []) strongHeaderKeywords = []"
  by code_simp

lemma isHeaderRow_Nil: "isHeaderRow [] referenceHeaders = False"
  by (simp add: isHeaderRow_def toLowerCase_def keywordHits_Nil)

lemma zip_take_right: "zip (take (length ys) xs) ys = zip xs ys"
  by (induction xs arbitrary: ys) (auto simp: take_Cons' zip_Cons1 split: list.splits)

lemma isHeaderRow_take:
  "isHeaderRow row referenceHeaders = isHeaderRow row (take (length row) referenceHeaders)"
proof (cases "row = []")
  case True
  then show ?thesis by (simp add: isHeaderRow_Nil)
next
  case False
  then have "(0 < length (take (length row) referenceHeaders)) = (0 < length referenceHeaders)"
    by (cases row; cases referenceHeaders) simp_all
  then show ?thesis
    unfolding isHeaderRow_def zip_take_right by simp
qed

lemma processed_length:
  assumes "processTablesWithPricing rawTables options = Inr res"
    and "mergeCompatibleTables rawTables = Inr merged"
  shows "length (processedTables res) = length merged"
  using processed_all2 [OF assms] by (simp add: list_all2_lengthD)

lemma empty_result:
  "processTablesWithPricing [] options =
     Inr \<lparr>processedTables = [], totals = \<lparr>totalNetto = Num 0, totalBrutto = Num 0\<rparr>\<rparr>"
proof -
  have "parseFloat (toFixed2 (Num 0)) = Num 0" by code_simp
  then show ?thesis by (simp add: processTablesWithPricing_def mergeCompatibleTables_def)
qed

lemma rough_facts:
  "bestCircIdx (classify roughTable) = Some 1"
  "bestTreatIdx (classify roughTable) = Some 2"
  by code_simp+

lemma rough_merged:
  "mergeCompatibleTables [roughTable, plainTable] = Inr [roughTable, plainTable]"
  by code_simp

lemma rough_result:
  "processTablesWithPricing [roughTable, plainTable] emptyOptions =
     Inr \<lparr>processedTables =
            [\<lparr>title = None, headers = [],
              rows = [[str ''Klon'', str ''120'', str ''CS'', str ''792'', str ''855.36''],
                      [str ''Klon'', str ''abc'', str ''CS'', [], []],
                      [str ''Klon'', str ''950'', str ''CS'', [], []],
                      [str ''Klon'', str ''120'', str ''W4t'', str ''1200'', str ''1296'']]\<rparr>,
             \<lparr>title = None, headers = [str ''a'', str ''b''], rows = [[str ''x'', str ''y'']]\<rparr>],
          totals = \<lparr>totalNetto = Num 1992, totalBrutto = round64 (215136 / 100)\<rparr>\<rparr>"
  by code_simp

lemma plain_unpriced:
  "processTable emptyOptions (Num 0, Num 0) plainTable =
     Inr (\<lparr>title = None, headers = [str ''a'', str ''b''], rows = [[str ''x'', str ''y'']]\<rparr>, (Num 0, Num 0))"
  by code_simp

lemma rough_cells:
  "firstDigits (str ''abc'') = []"
  "jlt (Num 700) (parseInt (firstDigits (str ''950'')))"
  "addCsPrice emptyOptions (str ''abc'') (str ''cs'') (Num 0) = Inr (Num 0)"
  "addCsPrice emptyOptions (str ''950'') (str ''cs'') (Num 0) = Inr (Num 0)"
  "addCsPrice emptyOptions (str ''120'') (str ''cs'') (Num 0) = Inr (Num 792)"
  "rowPrice emptyOptions 1 2 [str ''Klon''] = Inr (Num 0)"
  "rowPrice emptyOptions 1 2 [] = Inr (Num 0)"
  by code_simp+

lemma w4tMatch_parts:
  "(fst w4tMatch, snd w4tMatch 1, snd w4tMatch 2, snd w4tMatch 3) = (3, None, Some (str ''W4t''), None)"
  by (simp add: w4tMatch_def)

lemma w4t_match:
  "map (\<lambda>s. (fst s, snd s 1, snd s 2, snd s 3)) (matchAll (treatmentPattern (str ''w4t'')) (str ''W4t'') 0) =
     [(3, None, Some (str ''W4t''), None)]"
  "getTreatmentCount (str ''W4t'') (str ''w4t'') = Num 1"
  "getTreatmentCount (str ''2x W4t'') (str ''w4t'') = Num 2"
  by code_simp+

section \<open>The end-to-end example\<close>

text \<open>
  C4. The table with the headers Lp, Gatunek, Obw\<open>U+00F3\<close>d, Zabiegi and the one row
  1, D\<open>U+0105\<close>b, 120, CS, processed with empty options: the row gains the net cell
  \<^verbatim>\<open>792\<close> and the gross cell \<^verbatim>\<open>855.36\<close>, and the totals are 792 and the binary64
  value of 855.36. The headers are the six canonical labels.
\<close>

theorem oak_example:
  "processTablesWithPricing [oakTable] emptyOptions =
     Inr \<lparr>processedTables =
            [\<lparr>title = None,
              headers = [lpLabel, speciesLabel, circLabel, treatLabel, nettoLabel, bruttoLabel],
              rows = [[str ''1'', str ''D'' @ [0x105] @ str ''b'', str ''120'', str ''CS'',
                       str ''792'', str ''855.36'']]\<rparr>],
          totals = \<lparr>totalNetto = Num 792, totalBrutto = round64 (85536 / 100)\<rparr>\<rparr>"
  by (rule oak_result)

section \<open>Totality\<close>

text \<open>
  C7. \<^verbatim>\<open>processTablesWithPricing\<close> returns a result for every list of raw tables and
  every options record, with one processed table for each merged table: none of the array
  reads that could yield \<^verbatim>\<open>undefined\<close> before a property read does so, and every loop
  ends (the recursive functions of the model are total, the search loop of
  \<^verbatim>\<open>matchAll\<close> by its termination proof). On the empty list the result has no table
  and totals 0. What an input that cannot be priced does instead of failing:
  \<^item> a table with an unresolved column is returned with its headers, with the rows that
    the row filter keeps, and adds nothing to the totals;
  \<^item> a circumference cell without a digit, or with a number above 700 (the end of the
    last tier), adds nothing to the price of its row;
  \<^item> a row that ends before the circumference column is priced on its treatment cell
    alone, and a row that ends before both columns has the price 0;
  \<^item> an occurrence of a code with neither multiplier group counts once.

  \<^verbatim>\<open>isHeaderRow\<close> has no failing read either (its loop stays below the shorter of the
  two lengths), so it is a function into the booleans: the empty row is no header row,
  and the reference headers beyond the end of the row play no part.
\<close>

theorem processTablesWithPricing_total:
  "(\<exists>merged res.
       mergeCompatibleTables rawTables = Inr merged
       \<and> processTablesWithPricing rawTables options = Inr res
       \<and> length (processedTables res) = length merged)
   \<and> processTablesWithPricing [] options =
       Inr \<lparr>processedTables = [], totals = \<lparr>totalNetto = Num 0, totalBrutto = Num 0\<rparr>\<rparr>
   \<and> (bestCircIdx (classify tbl) = None \<or> bestTreatIdx (classify tbl) = None \<longrightarrow>
        processTable options tot tbl =
          Inr (tbl\<lparr>rows := rowsToProcess options (classify tbl) tbl\<rparr>, tot))
   \<and> (firstDigits circCell = [] \<or> jlt (Num 700) (parseInt (firstDigits circCell)) \<longrightarrow>
        addCsPrice options circCell tLower acc = Inr acc)
   \<and> (length row \<le> ci \<longrightarrow>
        rowPrice options ci ti row =
          Inr (addKuPrice options (orEmpty (elemAt row ti))
                 (addCrownPrice options (orEmpty (elemAt row ti)) (Num 0))))
   \<and> (length row \<le> ci \<and> length row \<le> ti \<longrightarrow> rowPrice options ci ti row = Inr (Num 0))
   \<and> (orEmpty (snd s 1) = [] \<and> orEmpty (snd s 3) = [] \<longrightarrow> parseInt (multiplierText s) = Num 1)
   \<and> isHeaderRow [] referenceHeaders = False
   \<and> isHeaderRow cells referenceHeaders = isHeaderRow cells (take (length cells) referenceHeaders)"
proof -
  obtain merged where 1: "mergeCompatibleTables rawTables = Inr merged"
    using mergeCompatibleTables_total by blast
  obtain processed t where 2: "mapTables options merged (Num 0, Num 0) = Inr (processed, t)"
    using mapTables_total by blast
  from 1 2 obtain res where 3: "processTablesWithPricing rawTables options = Inr res"
    by (cases t) (simp add: processTablesWithPricing_def)
  from 1 3 processed_length [OF 3 1]
  have total: "\<exists>merged res.
       mergeCompatibleTables rawTables = Inr merged
       \<and> processTablesWithPricing rawTables options = Inr res
       \<and> length (processedTables res) = length merged" by blast
  show ?thesis
    using total empty_result processTable_unpriced addCsPrice_zero rowPrice_short rowPrice_shorter
      multiplierText_default isHeaderRow_Nil isHeaderRow_take
    by (intro conjI impI) blast+
qed

theorem processTablesWithPricing_total_witness:
  "mergeCompatibleTables [roughTable, plainTable] = Inr [roughTable, plainTable]
   \<and> processTablesWithPricing [roughTable, plainTable] emptyOptions =
       Inr \<lparr>processedTables =
            [\<lparr>title = None, headers = [],
              rows = [[str ''Klon'', str ''120'', str ''CS'', str ''792'', str ''855.36''],
                      [str ''Klon'', str ''abc'', str ''CS'', [], []],
                      [str ''Klon'', str ''950'', str ''CS'', [], []],
                      [str ''Klon'', str ''120'', str ''W4t'', str ''1200'', str ''1296'']]\<rparr>,
             \<lparr>title = None, headers = [str ''a'', str ''b''], rows = [[str ''x'', str ''y'']]\<rparr>],
          totals = \<lparr>totalNetto = Num 1992, totalBrutto = round64 (215136 / 100)\<rparr>\<rparr>
   \<and> bestCircIdx (classify roughTable) = Some 1
   \<and> bestTreatIdx (classify roughTable) = Some 2
   \<and> bestCircIdx (classify plainTable) = None
   \<and> processTable emptyOptions (Num 0, Num 0) plainTable =
       Inr (plainTable\<lparr>rows := rowsToProcess emptyOptions (classify plainTable) plainTable\<rparr>, (Num 0, Num 0))
   \<and> processTable emptyOptions (Num 0, Num 0) plainTable =
       Inr (\<lparr>title = None, headers = [str ''a'', str ''b''], rows = [[str ''x'', str ''y'']]\<rparr>, (Num 0, Num 0))
   \<and> firstDigits (str ''abc'') = []
   \<and> addCsPrice emptyOptions (str ''abc'') (str ''cs'') (Num 0) = Inr (Num 0)
   \<and> jlt (Num 700) (parseInt (firstDigits (str ''950'')))
   \<and> addCsPrice emptyOptions (str ''950'') (str ''cs'') (Num 0) = Inr (Num 0)
   \<and> addCsPrice emptyOptions (str ''120'') (str ''cs'') (Num 0) = Inr (Num 792)
   \<and> length [str ''Klon''] \<le> (1 :: nat)
   \<and> length [str ''Klon''] \<le> (2 :: nat)
   \<and> rowPrice emptyOptions 1 2 [str ''Klon''] = Inr (Num 0)
   \<and> rowPrice emptyOptions 1 2 [] = Inr (Num 0)
   \<and> map (\<lambda>s. (fst s, snd s 1, snd s 2, snd s 3))
         (matchAll (treatmentPattern (str ''w4t'')) (str ''W4t'') 0) =
       [(3, None, Some (str ''W4t''), None)]
   \<and> (fst w4tMatch, snd w4tMatch 1, snd w4tMatch 2, snd w4tMatch 3) = (3, None, Some (str ''W4t''), None)
   \<and> parseInt (multiplierText w4tMatch) = Num 1
   \<and> getTreatmentCount (str ''W4t'') (str ''w4t'') = Num 1
   \<and> getTreatmentCount (str ''2x W4t'') (str ''w4t'') = Num 2
   \<and> isHeaderRow [str ''a''] [str ''a'', str ''b''] = isHeaderRow [str ''a''] [str ''a'']"
proof -
  note t1 = processTablesWithPricing_total
    [where rawTables = "[roughTable, plainTable]" and options = emptyOptions and tbl = plainTable
       and tot = "(Num 0, Num 0)" and circCell = "str ''abc''" and tLower = "str ''cs''"
       and acc = "Num 0" and row = "[str ''Klon'']" and ci = 1 and ti = 2
       and s = "w4tMatch" and cells = "[str ''a'']"
       and referenceHeaders = "[str ''a'', str ''b'']"]
  note t2 = processTablesWithPricing_total
    [where circCell = "str ''950''" and tLower = "str ''cs''" and acc = "Num 0"
       and options = emptyOptions and row = "[]" and ci = 1 and ti = 2]
  have a: "processTable emptyOptions (Num 0, Num 0) plainTable =
       Inr (plainTable\<lparr>rows := rowsToProcess emptyOptions (classify plainTable) plainTable\<rparr>, (Num 0, Num 0))"
    using t1 repeated_facts(3) by blast
  have b: "addCsPrice emptyOptions (str ''abc'') (str ''cs'') (Num 0) = Inr (Num 0)"
    using t1 rough_cells(1) by blast
  have c: "addCsPrice emptyOptions (str ''950'') (str ''cs'') (Num 0) = Inr (Num 0)"
    using t2 rough_cells(2) by blast
  have l: "length [str ''Klon''] \<le> (1 :: nat)" "length [str ''Klon''] \<le> (2 :: nat)"
    "length ([] :: jsstring list) \<le> (1 :: nat)" "length ([] :: jsstring list) \<le> (2 :: nat)"
    by simp_all
  have d: "rowPrice emptyOptions 1 2 [str ''Klon''] = Inr (Num 0)"
    using t1 l(1,2) by blast
  have e: "rowPrice emptyOptions 1 2 [] = Inr (Num 0)"
    using t2 l(3,4) by blast
  have m: "orEmpty (snd w4tMatch 1) = []"
    "orEmpty (snd w4tMatch 3) = []"
    by (simp_all add: orEmpty_def w4tMatch_def)
  have f: "parseInt (multiplierText w4tMatch) = Num 1"
    using t1 m by blast
  from t1 have "isHeaderRow [str ''a''] [str ''a'', str ''b''] =
      isHeaderRow [str ''a''] (take (length [str ''a'']) [str ''a'', str ''b''])"
    by blast
  then have g: "isHeaderRow [str ''a''] [str ''a'', str ''b''] = isHeaderRow [str ''a''] [str ''a'']"
    by simp
  show ?thesis
    by (intro conjI rough_merged rough_result rough_facts repeated_facts(3) a plain_unpriced
          rough_cells(1,2,5) b c d e w4t_match f g l(1,2) w4tMatch_parts)
qed

section \<open>Tables without headers\<close>

text \<open>
  C10. When the header list of a table is empty and both columns are resolved from the
  cells, the processed table still has an empty header list (no canonical label and no
  price label is added). Its rows are the retained rows of the table, one for one and in
  their order: the billed rows, and the unbilled rows that \<^verbatim>\<open>removeZeroPriceRows\<close> does
  not drop and that are not blank after their first cell. Each of them gains the two price
  cells (the formatted net and gross price when billed, two empty strings otherwise) and
  has its first cell renumbered unless \<^verbatim>\<open>preserveLp\<close> is set. So every output row is
  two cells longer than its source row, and the empty header list accounts for none of
  its cells.
\<close>

theorem empty_headers_stay_empty:
  fixes options :: ProcessingOptions and tbl :: table and ci ti :: nat
  defines "kept \<equiv> filter (retained options ci ti) (rowsToProcess options (classify tbl) tbl)"
  assumes "headers tbl = []"
    and "bestCircIdx (classify tbl) = Some ci"
    and "bestTreatIdx (classify tbl) = Some ti"
  shows "\<exists>tbl' tot'.
           processTable options tot tbl = Inr (tbl', tot')
           \<and> headers tbl' = []
           \<and> length (rows tbl') = length kept
           \<and> (\<forall>i < length kept.
                  rows tbl' ! i =
                    (if preserveLp options then kept ! i @ priceCells options ci ti (kept ! i)
                     else renumberRow (i, kept ! i @ priceCells options ci ti (kept ! i)))
                  \<and> length (rows tbl' ! i) = length (kept ! i) + 2
                  \<and> length (headers tbl') + 2 \<le> length (rows tbl' ! i))"
proof -
  let ?xs = "pricedRows options ci ti (rowsToProcess options (classify tbl) tbl)"
  define out where "out = (if preserveLp options then ?xs else map renumberRow (enumerate ?xs))"
  from processTable_priced_rows [OF assms(3,4), of options tot] assms(2)
  obtain tot' where pt: "processTable options tot tbl = Inr (tbl\<lparr>headers := [], rows := out\<rparr>, tot')"
    unfolding out_def by (auto simp: renameHeaders_Nil)
  have len: "length ?xs = length kept" by (simp add: pricedRows_def kept_def)
  have olen: "length out = length kept"
    unfolding out_def using output_length [of options ?xs] len by simp
  have row: "out ! i =
               (if preserveLp options then kept ! i @ priceCells options ci ti (kept ! i)
                else renumberRow (i, kept ! i @ priceCells options ci ti (kept ! i)))
             \<and> length (out ! i) = length (kept ! i) + 2
             \<and> 2 \<le> length (out ! i)"
    if i: "i < length kept" for i
  proof -
    from i len have ilen: "i < length ?xs" by simp
    have x: "?xs ! i = kept ! i @ priceCells options ci ti (kept ! i)"
      using i by (simp add: pricedRows_def kept_def)
    have "out ! i = (if preserveLp options then ?xs ! i else renumberRow (i, ?xs ! i))"
      unfolding out_def by (rule output_nth [OF ilen])
    then show ?thesis
      by (simp add: x renumberRow_length priceCells_length)
  qed
  have "processTable options tot tbl = Inr (tbl\<lparr>headers := [], rows := out\<rparr>, tot')
        \<and> headers (tbl\<lparr>headers := [], rows := out\<rparr>) = []
        \<and> length (rows (tbl\<lparr>headers := [], rows := out\<rparr>)) = length kept
        \<and> (\<forall>i < length kept.
               rows (tbl\<lparr>headers := [], rows := out\<rparr>) ! i =
                 (if preserveLp options then kept ! i @ priceCells options ci ti (kept ! i)
                  else renumberRow (i, kept ! i @ priceCells options ci ti (kept ! i)))
               \<and> length (rows (tbl\<lparr>headers := [], rows := out\<rparr>) ! i) = length (kept ! i) + 2
               \<and> length (headers (tbl\<lparr>headers := [], rows := out\<rparr>)) + 2
                    \<le> length (rows (tbl\<lparr>headers := [], rows := out\<rparr>) ! i))"
    using pt olen row by (simp add: renumberRow_length priceCells_length)
  then show ?thesis by blast
qed

theorem empty_headers_stay_empty_witness:
  "headers bareTable = []
   \<and> bestCircIdx (classify bareTable) = Some 0
   \<and> bestTreatIdx (classify bareTable) = Some 2
   \<and> filter (retained emptyOptions 0 2) (rowsToProcess emptyOptions (classify bareTable) bareTable) =
       [[str ''1'', str ''120'', str ''CS'']]
   \<and> processTable emptyOptions (Num 0, Num 0) bareTable =
       Inr (\<lparr>title = None, headers = [],
             rows = [[str ''1'', str ''120'', str ''CS'', str ''730'', str ''788.40'']]\<rparr>,
            Num 730, jmul (Num 730) (jadd (Num 1) VAT_RATE))
   \<and> (\<exists>tbl' tot'.
           processTable emptyOptions (Num 0, Num 0) bareTable = Inr (tbl', tot')
           \<and> headers tbl' = []
           \<and> length (rows tbl') = length (filter (retained emptyOptions 0 2) (rowsToProcess emptyOptions (classify bareTable) bareTable))
           \<and> (\<forall>i < length (filter (retained emptyOptions 0 2) (rowsToProcess emptyOptions (classify bareTable) bareTable)).
                  rows tbl' ! i =
                    (if preserveLp emptyOptions then (filter (retained emptyOptions 0 2) (rowsToProcess emptyOptions (classify bareTable) bareTable)) ! i @ priceCells emptyOptions 0 2 ((filter (retained emptyOptions 0 2) (rowsToProcess emptyOptions (classify bareTable) bareTable)) ! i)
                     else renumberRow (i, (filter (retained emptyOptions 0 2) (rowsToProcess emptyOptions (classify bareTable) bareTable)) ! i @ priceCells emptyOptions 0 2 ((filter (retained emptyOptions 0 2) (rowsToProcess emptyOptions (classify bareTable) bareTable)) ! i)))
                  \<and> length (rows tbl' ! i) = length ((filter (retained emptyOptions 0 2) (rowsToProcess emptyOptions (classify bareTable) bareTable)) ! i) + 2
                  \<and> length (headers tbl') + 2 \<le> length (rows tbl' ! i)))"
  by (intro conjI bare_facts bare_kept bare_result
        empty_headers_stay_empty [OF bare_facts, where tot = "(Num 0, Num 0)" and options = emptyOptions])

section \<open>Billed rows are kept\<close>

text \<open>
  C9. In a table whose two columns are resolved, let \<open>bs\<close> be the rows that reach the
  pricing loop with a net price above zero, with their repetitions and in their order.
  These are the rows added to the totals: the totals grow by their net and gross prices
  and by nothing else. Every occurrence has its own place in the output: there is a
  strictly increasing map \<open>pos\<close> from the positions of \<open>bs\<close> to positions of the output
  rows, and the output row at \<open>pos j\<close> is the row \<open>bs ! j\<close> with its two formatted price
  cells appended, its first cell renumbered by that position unless \<^verbatim>\<open>preserveLp\<close> is
  set. So neither the cleanup of empty rows nor the renumbering drops or merges a billed
  row.
\<close>

theorem billed_rows_survive:
  fixes options :: ProcessingOptions and tbl :: table and ci ti :: nat
  defines "bs \<equiv> filter (billed options ci ti) (rowsToProcess options (classify tbl) tbl)"
  assumes "bestCircIdx (classify tbl) = Some ci"
    and "bestTreatIdx (classify tbl) = Some ti"
  shows "\<exists>tbl' pos.
           processTable options tot tbl =
             Inr (tbl', foldl jadd (fst tot) (map (rowNet options ci ti) bs),
                        foldl jadd (snd tot) (map (\<lambda>row. grossOf (rowNet options ci ti row)) bs))
           \<and> (\<forall>j k. j < k \<and> k < length bs \<longrightarrow> pos j < pos k)
           \<and> (\<forall>j < length bs.
                  rowPrice options ci ti (bs ! j) = Inr (rowNet options ci ti (bs ! j))
                  \<and> jgt (rowNet options ci ti (bs ! j)) (Num 0)
                  \<and> pos j < length (rows tbl')
                  \<and> rows tbl' ! pos j =
                      (if preserveLp options
                       then bs ! j @ [formatPrice (rowNet options ci ti (bs ! j)),
                                      formatPrice (jmul (rowNet options ci ti (bs ! j)) (jadd (Num 1) VAT_RATE))]
                       else renumberRow
                              (pos j,
                               bs ! j @ [formatPrice (rowNet options ci ti (bs ! j)),
                                         formatPrice (jmul (rowNet options ci ti (bs ! j)) (jadd (Num 1) VAT_RATE))])))"
proof -
  let ?rs = "rowsToProcess options (classify tbl) tbl"
  let ?kept = "filter (retained options ci ti) ?rs"
  let ?xs = "pricedRows options ci ti ?rs"
  let ?out = "if preserveLp options then ?xs else map renumberRow (enumerate ?xs)"
  have bs: "bs = filter (billed options ci ti) ?kept"
    by (simp only: bs_def filter_billed_retained)
  from filter_positions [of "billed options ci ti" ?kept] obtain pos where pos:
    "\<And>j k. j < k \<Longrightarrow> k < length bs \<Longrightarrow> pos j < pos k"
    "\<And>j. j < length bs \<Longrightarrow> pos j < length ?kept \<and> ?kept ! pos j = bs ! j"
    unfolding bs by blast
  from processTable_priced_full [OF assms(2,3), of options tot] obtain hs' where pt:
    "processTable options tot tbl =
       Inr (tbl\<lparr>headers := hs', rows := ?out\<rparr>,
            foldl jadd (fst tot) (map (rowNet options ci ti) bs),
            foldl jadd (snd tot) (map (\<lambda>row. grossOf (rowNet options ci ti row)) bs))"
    by (auto simp: billedNets_def bs_def comp_def)
  have len: "length ?xs = length ?kept" by (simp add: pricedRows_def)
  have row: "rowPrice options ci ti (bs ! j) = Inr (rowNet options ci ti (bs ! j))
             \<and> jgt (rowNet options ci ti (bs ! j)) (Num 0)
             \<and> pos j < length ?out
             \<and> ?out ! pos j =
                 (if preserveLp options
                  then bs ! j @ [formatPrice (rowNet options ci ti (bs ! j)),
                                 formatPrice (jmul (rowNet options ci ti (bs ! j)) (jadd (Num 1) VAT_RATE))]
                  else renumberRow
                         (pos j,
                          bs ! j @ [formatPrice (rowNet options ci ti (bs ! j)),
                                    formatPrice (jmul (rowNet options ci ti (bs ! j)) (jadd (Num 1) VAT_RATE))]))"
    if j: "j < length bs" for j
  proof -
    from pos(2) [OF j] have p: "pos j < length ?kept" "?kept ! pos j = bs ! j" by auto
    have "bs ! j \<in> set bs" using j by simp
    then have b: "billed options ci ti (bs ! j)" by (simp add: bs_def)
    then have cells: "priceCells options ci ti (bs ! j) =
        [formatPrice (rowNet options ci ti (bs ! j)),
         formatPrice (jmul (rowNet options ci ti (bs ! j)) (jadd (Num 1) VAT_RATE))]"
      by (simp add: priceCells_def grossOf_def)
    have x: "?xs ! pos j = bs ! j @ priceCells options ci ti (bs ! j)"
      using p by (simp add: pricedRows_def)
    from p(1) len have plen: "pos j < length ?xs" by simp
    from output_nth [OF plen, of options] x cells output_length [of options ?xs] plen b
    show ?thesis by (simp add: rowPrice_rowNet billed_def)
  qed
  show ?thesis
    by (rule exI [of _ "tbl\<lparr>headers := hs', rows := ?out\<rparr>"], rule exI [of _ pos])
       (use pt pos(1) row in simp)
qed

theorem billed_rows_survive_witness:
  "bestCircIdx (classify twoOaksTable) = Some 2
   \<and> bestTreatIdx (classify twoOaksTable) = Some 3
   \<and> filter (billed emptyOptions 2 3) (rowsToProcess emptyOptions (classify twoOaksTable) twoOaksTable) =
       [[str ''1'', str ''D'' @ [0x105] @ str ''b'', str ''120'', str ''CS''], [str ''2'', str ''D'' @ [0x105] @ str ''b'', str ''120'', str ''CS'']]
   \<and> processTable emptyOptions (Num 0, Num 0) twoOaksTable =
       Inr (\<lparr>title = None,
             headers = [lpLabel, speciesLabel, circLabel, treatLabel, nettoLabel, bruttoLabel],
             rows = [[str ''1'', str ''D'' @ [0x105] @ str ''b'', str ''120'', str ''CS''] @ [str ''792'', str ''855.36''], [str ''2'', str ''D'' @ [0x105] @ str ''b'', str ''120'', str ''CS''] @ [str ''792'', str ''855.36'']]\<rparr>,
            Num 1584, round64 (171072 / 100))
   \<and> (\<exists>tbl' pos.
           processTable emptyOptions (Num 0, Num 0) twoOaksTable =
             Inr (tbl', foldl jadd (fst (Num 0, Num 0)) (map (rowNet emptyOptions 2 3) (filter (billed emptyOptions 2 3) (rowsToProcess emptyOptions (classify twoOaksTable) twoOaksTable))),
                        foldl jadd (snd (Num 0, Num 0)) (map (\<lambda>row. grossOf (rowNet emptyOptions 2 3 row)) (filter (billed emptyOptions 2 3) (rowsToProcess emptyOptions (classify twoOaksTable) twoOaksTable))))
           \<and> (\<forall>j k. j < k \<and> k < length (filter (billed emptyOptions 2 3) (rowsToProcess emptyOptions (classify twoOaksTable) twoOaksTable)) \<longrightarrow> pos j < pos k)
           \<and> (\<forall>j < length (filter (billed emptyOptions 2 3) (rowsToProcess emptyOptions (classify twoOaksTable) twoOaksTable)).
                  rowPrice emptyOptions 2 3 ((filter (billed emptyOptions 2 3) (rowsToProcess emptyOptions (classify twoOaksTable) twoOaksTable)) ! j) = Inr (rowNet emptyOptions 2 3 ((filter (billed emptyOptions 2 3) (rowsToProcess emptyOptions (classify twoOaksTable) twoOaksTable)) ! j))
                  \<and> jgt (rowNet emptyOptions 2 3 ((filter (billed emptyOptions 2 3) (rowsToProcess emptyOptions (classify twoOaksTable) twoOaksTable)) ! j)) (Num 0)
                  \<and> pos j < length (rows tbl')
                  \<and> rows tbl' ! pos j =
                      (if preserveLp emptyOptions
                       then (filter (billed emptyOptions 2 3) (rowsToProcess emptyOptions (classify twoOaksTable) twoOaksTable)) ! j @ [formatPrice (rowNet emptyOptions 2 3 ((filter (billed emptyOptions 2 3) (rowsToProcess emptyOptions (classify twoOaksTable) twoOaksTable)) ! j)),
                                      formatPrice (jmul (rowNet emptyOptions 2 3 ((filter (billed emptyOptions 2 3) (rowsToProcess emptyOptions (classify twoOaksTable) twoOaksTable)) ! j)) (jadd (Num 1) VAT_RATE))]
                       else renumberRow
                              (pos j,
                               (filter (billed emptyOptions 2 3) (rowsToProcess emptyOptions (classify twoOaksTable) twoOaksTable)) ! j @ [formatPrice (rowNet emptyOptions 2 3 ((filter (billed emptyOptions 2 3) (rowsToProcess emptyOptions (classify twoOaksTable) twoOaksTable)) ! j)),
                                         formatPrice (jmul (rowNet emptyOptions 2 3 ((filter (billed emptyOptions 2 3) (rowsToProcess emptyOptions (classify twoOaksTable) twoOaksTable)) ! j)) (jadd (Num 1) VAT_RATE))]))))"
  by (intro conjI twoOaks_facts twoOaks_billed twoOaks_result
        billed_rows_survive [OF twoOaks_facts, where tot = "(Num 0, Num 0)" and options = emptyOptions])

section \<open>The purge of header rows\<close>

text \<open>
  C6, as amended. Header rows are purged before pricing, against the header list of the
  merged input table. Let \<open>kept\<close> be the rows of a merged table that \<^verbatim>\<open>isHeaderRow\<close>
  does not judge a header row against that table's own headers (and, under
  \<^verbatim>\<open>removeUoRows\<close> with a resolved treatment column, that are no Uo rows).
  \<^item> For a table left unpriced (a column unresolved) the output headers are the input
    headers and the output rows are exactly \<open>kept\<close>, so no output row is a header row
    against the output headers.
  \<^item> For a priced table the output headers are the renamed headers and the output rows
    are exactly the retained rows of \<open>kept\<close>, each with its two price cells appended and
    its first cell renumbered unless \<^verbatim>\<open>preserveLp\<close> is set.
\<close>

theorem header_purge:
  fixes options :: ProcessingOptions
  defines "kept \<equiv> \<lambda>tbl.
             filter (\<lambda>row. \<not> isHeaderRow row (headers tbl)
                            \<and> (case bestTreatIdx (classify tbl) of
                                 Some ti \<Rightarrow> removeUoRows options \<longrightarrow> keepNonUo ti row
                               | None \<Rightarrow> True))
                     (rows tbl)"
  assumes "processTablesWithPricing rawTables options = Inr res"
    and "mergeCompatibleTables rawTables = Inr merged"
  shows "list_all2
           (\<lambda>tbl tbl'.
              case (bestCircIdx (classify tbl), bestTreatIdx (classify tbl)) of
                (Some ci, Some ti) \<Rightarrow>
                  renameHeaders (Some ci) (Some ti) (headers tbl) = Inr (headers tbl')
                  \<and> rows tbl' =
                      (if preserveLp options then pricedRows options ci ti (kept tbl)
                       else map renumberRow (enumerate (pricedRows options ci ti (kept tbl))))
              | _ \<Rightarrow>
                  headers tbl' = headers tbl \<and> rows tbl' = kept tbl
                  \<and> (\<forall>r \<in> set (rows tbl'). \<not> isHeaderRow r (headers tbl')))
           merged (processedTables res)"
  using processed_all2 [OF assms(2,3)]
proof (rule list_all2_mono, goal_cases)
  case (1 tbl tbl')
  then obtain tot1 tot2 where pt: "processTable options tot1 tbl = Inr (tbl', tot2)" by blast
  have k: "kept tbl = rowsToProcess options (classify tbl) tbl"
    unfolding kept_def by (simp add: rowsToProcess_eq)
  from processTable_shape [OF pt] show ?case unfolding k .
qed

theorem header_purge_witness:
  "mergeCompatibleTables [repeatedHeaderTable, plainTable] = Inr [repeatedHeaderTable, plainTable]
   \<and> processTablesWithPricing [repeatedHeaderTable, plainTable] emptyOptions =
       Inr \<lparr>processedTables =
            [\<lparr>title = None,
              headers = [lpLabel, speciesLabel, circLabel, treatLabel, nettoLabel, bruttoLabel],
              rows = [[str ''1'', str ''D'' @ [0x105] @ str ''b'', str ''120'', str ''CS'', str ''792'', str ''855.36'']]\<rparr>,
             \<lparr>title = None, headers = [str ''a'', str ''b''], rows = [[str ''x'', str ''y'']]\<rparr>],
          totals = \<lparr>totalNetto = Num 792, totalBrutto = round64 (85536 / 100)\<rparr>\<rparr>
   \<and> isHeaderRow [str ''Lp'', str ''Gatunek'', str ''Obw'' @ [0xF3] @ str ''d'', str ''Zabiegi''] (headers repeatedHeaderTable)
   \<and> isHeaderRow [str ''a'', str ''b''] (headers plainTable)
   \<and> bestCircIdx (classify repeatedHeaderTable) = Some 2
   \<and> bestTreatIdx (classify repeatedHeaderTable) = Some 3
   \<and> bestCircIdx (classify plainTable) = None
   \<and> bestTreatIdx (classify plainTable) = None
   \<and> list_all2
           (\<lambda>tbl tbl'.
              case (bestCircIdx (classify tbl), bestTreatIdx (classify tbl)) of
                (Some ci, Some ti) \<Rightarrow>
                  renameHeaders (Some ci) (Some ti) (headers tbl) = Inr (headers tbl')
                  \<and> rows tbl' =
                      (if preserveLp emptyOptions then pricedRows emptyOptions ci ti (filter (\<lambda>row. \<not> isHeaderRow row (headers tbl)
                            \<and> (case bestTreatIdx (classify tbl) of
                                 Some ti \<Rightarrow> removeUoRows emptyOptions \<longrightarrow> keepNonUo ti row
                               | None \<Rightarrow> True))
                     (rows tbl))
                       else map renumberRow (enumerate (pricedRows emptyOptions ci ti (filter (\<lambda>row. \<not> isHeaderRow row (headers tbl)
                            \<and> (case bestTreatIdx (classify tbl) of
                                 Some ti \<Rightarrow> removeUoRows emptyOptions \<longrightarrow> keepNonUo ti row
                               | None \<Rightarrow> True))
                     (rows tbl)))))
              | _ \<Rightarrow>
                  headers tbl' = headers tbl \<and> rows tbl' = filter (\<lambda>row. \<not> isHeaderRow row (headers tbl)
                            \<and> (case bestTreatIdx (classify tbl) of
                                 Some ti \<Rightarrow> removeUoRows emptyOptions \<longrightarrow> keepNonUo ti row
                               | None \<Rightarrow> True))
                     (rows tbl)
                  \<and> (\<forall>r \<in> set (rows tbl'). \<not> isHeaderRow r (headers tbl')))
           [repeatedHeaderTable, plainTable] (processedTables
             \<lparr>processedTables =
            [\<lparr>title = None,
              headers = [lpLabel, speciesLabel, circLabel, treatLabel, nettoLabel, bruttoLabel],
              rows = [[str ''1'', str ''D'' @ [0x105] @ str ''b'', str ''120'', str ''CS'', str ''792'', str ''855.36'']]\<rparr>,
             \<lparr>title = None, headers = [str ''a'', str ''b''], rows = [[str ''x'', str ''y'']]\<rparr>],
          totals = \<lparr>totalNetto = Num 792, totalBrutto = round64 (85536 / 100)\<rparr>\<rparr>)"
  by (intro conjI repeated_merged repeated_result repeated_header_rows repeated_facts
        header_purge [OF repeated_result repeated_merged])

text \<open>
  The claim as stated fails for a priced table, whose output rows and output headers are
  both rewritten: the unbilled row \<^verbatim>\<open>130, x\<close> under the headers \<^verbatim>\<open>obw, zabieg\<close>
  leaves as \<^verbatim>\<open>1, x\<close> with two empty price cells, and \<^verbatim>\<open>isHeaderRow\<close> judges it
  a header against the four canonical output headers (three of the four cells are
  contained in their header, a score of 0.6).
\<close>

theorem header_purge_counterexample:
  "processTablesWithPricing [unbilledTable] emptyOptions =
     Inr \<lparr>processedTables =
            [\<lparr>title = None,
              headers = [circLabel, treatLabel, nettoLabel, bruttoLabel],
              rows = [[str ''1'', str ''x'', [], []]]\<rparr>],
          totals = \<lparr>totalNetto = Num 0, totalBrutto = Num 0\<rparr>\<rparr>
   \<and> isHeaderRow [str ''1'', str ''x'', [], []] [circLabel, treatLabel, nettoLabel, bruttoLabel]"
  by code_simp

end
